theory Spec2Isabelle
  imports Complex_Main "HOL-Library.Word" "HOL-Library.Signed_Division"
begin

unbundle bit_operations_syntax

section \<open>The WAV reader and writer of addons/audio/wav.c\<close>

subsection \<open>Byte streams\<close>

type_synonym byte = "8 word"

text \<open>
  Modelled from the spec: the seekable byte-stream capability (\<open>ALLEGRO_FILE\<close> with
  \<open>al_fgetc\<close>, \<open>al_fread\<close>, \<open>al_fseek\<close>, \<open>al_ftell\<close>, \<open>al_fputc\<close>, \<open>al_fputs\<close>,
  \<open>al_fwrite\<close>, \<open>al_fwrite16le\<close>, \<open>al_fwrite32le\<close>) is declared outside wav.c.
  A stream is its contents and its cursor. Reading at or past the end yields end-of-file
  and leaves the cursor where it is; a relative seek to a negative position fails and
  leaves the cursor where it is; seeking past the end is allowed. The offset of an
  absolute seek is a signed 64-bit integer: an unsigned position of \<open>2 ^ 63\<close> or more is a
  negative offset, and the seek fails and leaves the cursor where it is.
\<close>

record ALLEGRO_FILE =
  fbytes :: "byte list"
  fpos :: nat

definition al_fgetc :: "ALLEGRO_FILE \<Rightarrow> byte option \<times> ALLEGRO_FILE" where
  "al_fgetc fl =
     (if fpos fl < length (fbytes fl)
      then (Some (fbytes fl ! fpos fl), fl\<lparr>fpos := fpos fl + 1\<rparr>)
      else (None, fl))"

definition al_fread :: "ALLEGRO_FILE \<Rightarrow> nat \<Rightarrow> byte list \<times> ALLEGRO_FILE" where
  "al_fread fl n =
     (let got = take n (drop (fpos fl) (fbytes fl))
      in (got, fl\<lparr>fpos := fpos fl + length got\<rparr>))"

definition al_fseek_cur :: "ALLEGRO_FILE \<Rightarrow> int \<Rightarrow> ALLEGRO_FILE" where
  "al_fseek_cur fl off =
     (if int (fpos fl) + off < 0 then fl else fl\<lparr>fpos := nat (int (fpos fl) + off)\<rparr>)"

definition al_fseek_set :: "ALLEGRO_FILE \<Rightarrow> nat \<Rightarrow> bool \<times> ALLEGRO_FILE" where
  "al_fseek_set fl p = (if p < 2 ^ 63 then (True, fl\<lparr>fpos := p\<rparr>) else (False, fl))"

definition al_ftell :: "ALLEGRO_FILE \<Rightarrow> nat" where
  "al_ftell fl = fpos fl"

text \<open>
  Writing replaces the bytes under the cursor and extends the stream at its end; a gap
  left by a seek past the end reads as zero.
\<close>

definition al_fwrite :: "ALLEGRO_FILE \<Rightarrow> byte list \<Rightarrow> ALLEGRO_FILE" where
  "al_fwrite fl xs =
     (let old = fbytes fl; p = fpos fl
      in \<lparr>fbytes = take p old @ replicate (p - length old) 0 @ xs @ drop (p + length xs) old,
          fpos = p + length xs\<rparr>)"

definition le16 :: "16 word \<Rightarrow> byte list" where
  "le16 v = [ucast v, ucast (drop_bit 8 v)]"

definition le32 :: "32 word \<Rightarrow> byte list" where
  "le32 v = [ucast v, ucast (drop_bit 8 v), ucast (drop_bit 16 v), ucast (drop_bit 24 v)]"

definition al_fputc :: "ALLEGRO_FILE \<Rightarrow> byte \<Rightarrow> ALLEGRO_FILE" where
  "al_fputc fl c = al_fwrite fl [c]"

definition al_fputs :: "ALLEGRO_FILE \<Rightarrow> byte list \<Rightarrow> ALLEGRO_FILE" where
  "al_fputs fl str = al_fwrite fl str"

definition al_fwrite16le :: "ALLEGRO_FILE \<Rightarrow> 16 word \<Rightarrow> ALLEGRO_FILE" where
  "al_fwrite16le fl v = al_fwrite fl (le16 v)"

definition al_fwrite32le :: "ALLEGRO_FILE \<Rightarrow> 32 word \<Rightarrow> ALLEGRO_FILE" where
  "al_fwrite32le fl v = al_fwrite fl (le32 v)"

text \<open>The four-character tags, as bytes.\<close>

definition RIFF_tag :: "byte list" where "RIFF_tag = [0x52, 0x49, 0x46, 0x46]"
definition WAVE_tag :: "byte list" where "WAVE_tag = [0x57, 0x41, 0x56, 0x45]"
definition fmt_tag :: "byte list" where "fmt_tag = [0x66, 0x6D, 0x74, 0x20]"
definition data_tag :: "byte list" where "data_tag = [0x64, 0x61, 0x74, 0x61]"

subsection \<open>C integers\<close>

text \<open>
  \<open>int\<close> is a 32-bit word and \<open>short\<close> a 16-bit word, read as two's complement by
  \<open>sint\<close>; \<open>+\<close> wraps around. Division of \<open>int\<close> truncates towards zero.
  \<open>size_t\<close> and \<open>unsigned long\<close> values are natural numbers; converting a negative
  \<open>int\<close> to \<open>size_t\<close> wraps at 64 bits.
\<close>

definition c_div :: "32 word \<Rightarrow> 32 word \<Rightarrow> 32 word" where
  "c_div a b = word_of_int (sint a sdiv sint b)"

definition int_of_short :: "16 word \<Rightarrow> 32 word" where
  "int_of_short s = scast s"

definition size_t_of :: "int \<Rightarrow> nat" where
  "size_t_of i = nat (i mod 2 ^ 64)"

text \<open>The value of \<open>al_fgetc\<close> as an \<open>int\<close>: the byte, or \<open>EOF\<close>, which is \<open>-1\<close>.\<close>

definition getc_int :: "byte option \<Rightarrow> 32 word" where
  "getc_int c = (case c of None \<Rightarrow> - 1 | Some b \<Rightarrow> ucast b)"

subsection \<open>The handle\<close>

record WAVFILE =
  f :: ALLEGRO_FILE
  dpos :: nat
  freq :: "32 word"
  bits :: "16 word"
  channels :: "16 word"
  samples :: "32 word"
  loop_start :: real
  loop_end :: real

subsection \<open>read16 and read32\<close>

text \<open>
  Both take the current value of the destination and return the success flag, the
  destination's value afterwards and the stream. On end-of-file the destination keeps
  its value.
\<close>

definition read16 :: "ALLEGRO_FILE \<Rightarrow> 16 word \<Rightarrow> bool \<times> 16 word \<times> ALLEGRO_FILE" where
  "read16 fl v =
     (let (a, f1) = al_fgetc fl; (b, f2) = al_fgetc f1
      in if b \<noteq> None
         then (True, ucast (getc_int a OR push_bit 8 (getc_int b)), f2)
         else (False, v, f2))"

definition read32 :: "ALLEGRO_FILE \<Rightarrow> 32 word \<Rightarrow> bool \<times> 32 word \<times> ALLEGRO_FILE" where
  "read32 fl v =
     (let (a, f1) = al_fgetc fl; (b, f2) = al_fgetc f1;
          (c, f3) = al_fgetc f2; (d, f4) = al_fgetc f3
      in if d \<noteq> None
         then (True, getc_int a OR push_bit 8 (getc_int b) OR push_bit 16 (getc_int c)
                       OR push_bit 24 (getc_int d), f4)
         else (False, v, f4))"

subsection \<open>wav_open\<close>

text \<open>
  One pass of the \<open>while (true)\<close> loop of \<open>wav_open\<close>: it fails (\<open>goto wav_open_error\<close>),
  finds the data chunk (\<open>break\<close>), or goes round again.
\<close>

datatype chunk_result = Chunk_error | Chunk_data WAVFILE | Chunk_next WAVFILE

definition wav_chunk :: "WAVFILE \<Rightarrow> chunk_result" where
  "wav_chunk wavfile =
     (let (buffer, f1) = al_fread (f wavfile) 4
      in if length buffer \<noteq> 4 then Chunk_error
         else if buffer = fmt_tag then
           (let (r1, len0, f2) = read32 f1 0
            in if sint len0 < 16 then Chunk_error
               else
                 (let (r2, pcm, f3) = read16 f2 0
                  in if pcm \<noteq> 1 then Chunk_error
                     else
                       (let (r3, ch, f4) = read16 f3 (channels wavfile)
                        in if ch \<noteq> 1 \<and> ch \<noteq> 2 then Chunk_error
                           else
                             (let (r4, fr, f5) = read32 f4 (freq wavfile);
                                  f6 = al_fseek_cur f5 6;
                                  (r5, b, f7) = read16 f6 (bits wavfile)
                              in if b \<noteq> 8 \<and> b \<noteq> 16 then Chunk_error
                                 else
                                   (let len1 = len0 - 16;
                                        f8 = (if 0 < sint len1
                                              then al_fseek_cur f7 (sint len1) else f7)
                                    in Chunk_next
                                         (wavfile\<lparr>f := f8, freq := fr, bits := b,
                                                   channels := ch\<rparr>))))))
         else if buffer = data_tag then Chunk_data (wavfile\<lparr>f := f1\<rparr>)
         else
           (let (r1, len0, f2) = read32 f1 0;
                f3 = al_fseek_cur f2 (sint len0)
            in Chunk_next (wavfile\<lparr>f := f3\<rparr>)))"

text \<open>
  The loop. A chunk with a negative length moves the cursor backwards, so the loop need
  not end: the result is \<open>None\<close> when it runs forever, \<open>Some None\<close> when it leaves through
  \<open>wav_open_error\<close>, and \<open>Some (Some w)\<close> when it reaches the data chunk.
\<close>

partial_function (option) wav_chunks :: "WAVFILE \<Rightarrow> WAVFILE option option" where
  "wav_chunks wavfile =
     (case wav_chunk wavfile of
        Chunk_error \<Rightarrow> Some None
      | Chunk_data w \<Rightarrow> Some (Some w)
      | Chunk_next w \<Rightarrow> wav_chunks w)"

declare wav_chunks.simps [code]

text \<open>The code after the loop: the sample count and the data position.\<close>

definition wav_count :: "WAVFILE \<Rightarrow> WAVFILE" where
  "wav_count wavfile =
     (let (r, n0, f1) = read32 (f wavfile) (samples wavfile);
          n1 = (if channels wavfile = 2 then c_div (n0 + 1) 2 else n0);
          n2 = (if bits wavfile = 16 then c_div n1 2 else n1)
      in wavfile\<lparr>f := f1, samples := n2, dpos := al_ftell f1\<rparr>)"

text \<open>
  \<open>wav_open\<close> takes what \<open>al_fopen\<close> returned (\<open>None\<close> for a null pointer) and what
  \<open>malloc\<close> returned: the block's contents before initialisation, or \<open>None\<close>.
\<close>

definition wav_open :: "ALLEGRO_FILE option \<Rightarrow> WAVFILE option \<Rightarrow> WAVFILE option option" where
  "wav_open fo mo =
     (case fo of
        None \<Rightarrow> Some None
      | Some f0 \<Rightarrow>
          (case mo of
             None \<Rightarrow> Some None
           | Some w0 \<Rightarrow>
               (let wavfile = w0\<lparr>f := f0, freq := 22050, bits := 8, channels := 1\<rparr>;
                    (buffer, f1) = al_fread f0 12
                in if length buffer \<noteq> 12 then Some None
                   else if take 4 buffer \<noteq> RIFF_tag \<or> take 4 (drop 8 buffer) \<noteq> WAVE_tag
                   then Some None
                   else (case wav_chunks (wavfile\<lparr>f := f1\<rparr>) of
                           None \<Rightarrow> None
                         | Some None \<Rightarrow> Some None
                         | Some (Some w) \<Rightarrow> Some (Some (wav_count w))))))"

subsection \<open>wav_read\<close>

text \<open>
  Memory is a list of bytes. The host is little-endian, as the raw \<open>al_fwrite\<close> of
  the 16-bit buffer in \<open>al_save_wav_stream\<close> presumes: \<open>mem16\<close> is the memory image of
  an array of 16-bit values, \<open>view16\<close> and \<open>view32\<close> read memory as an array of 16-bit
  and of 32-bit values. \<open>store\<close> writes bytes at the start of a block.
\<close>

definition mem16 :: "16 word list \<Rightarrow> byte list" where
  "mem16 xs = concat (map le16 xs)"

fun view16 :: "byte list \<Rightarrow> 16 word list" where
  "view16 (a # b # m) = (ucast a OR push_bit 8 (ucast b)) # view16 m"
| "view16 m = []"

fun view32 :: "byte list \<Rightarrow> 32 word list" where
  "view32 (a # b # c # d # m) =
     (ucast a OR push_bit 8 (ucast b) OR push_bit 16 (ucast c) OR push_bit 24 (ucast d))
       # view32 m"
| "view32 m = []"

definition store :: "byte list \<Rightarrow> byte list \<Rightarrow> byte list" where
  "store data xs = xs @ drop (length xs) data"

text \<open>The \<open>for\<close> loop of the 16-bit branch: the values read before \<open>read16\<close> fails.\<close>

fun wav_read16 :: "nat \<Rightarrow> ALLEGRO_FILE \<Rightarrow> 16 word list \<times> ALLEGRO_FILE" where
  "wav_read16 0 fl = ([], fl)"
| "wav_read16 (Suc k) fl =
     (let (ok, s, f1) = read16 fl 0
      in if \<not> ok then ([], f1)
         else (let (xs, f2) = wav_read16 k f1 in (s # xs, f2)))"

text \<open>
  \<open>wav_read\<close> returns the number of frames, the block \<open>data\<close> afterwards and the handle.
  The products of \<open>size_t\<close> wrap at 64 bits.
\<close>

definition wav_read :: "WAVFILE \<Rightarrow> byte list \<Rightarrow> nat \<Rightarrow> nat \<times> byte list \<times> WAVFILE" where
  "wav_read wavfile data count =
     (let n = (size_t_of (sint (channels wavfile)) * count) mod 2 ^ 64
      in if bits wavfile = 8
         then (let (got, f1) = al_fread (f wavfile) n
               in (length got div size_t_of (sint (channels wavfile)),
                   store data got, wavfile\<lparr>f := f1\<rparr>))
         else (let (xs, f1) = wav_read16 n (f wavfile)
               in (length xs div size_t_of (sint (channels wavfile)),
                   store data (mem16 xs), wavfile\<lparr>f := f1\<rparr>)))"

subsection \<open>The stream operations\<close>

text \<open>
  The audio stream is represented by the handle in its \<open>extra\<close> field. A \<open>double\<close> is a
  real number and its arithmetic is exact, so the embedding follows the code where the
  products and quotients of the code are representable without rounding. The conversion
  to \<open>unsigned long\<close> drops the fraction and wraps at 64 bits; for a negative value, where
  C leaves the conversion undefined, this is the two's complement result of the usual
  64-bit targets. \<open>wav_stream_seek\<close> returns whether the absolute seek succeeded. A
  frame size of zero, with which the remainder and the quotients of the code are
  undefined, does not occur on a handle whose bit depth is 8 or 16 and whose channel
  count is 1 or 2.
\<close>

definition double_of_int :: "32 word \<Rightarrow> real" where
  "double_of_int i = real_of_int (sint i)"

definition ulong_of_double :: "real \<Rightarrow> nat" where
  "ulong_of_double x = nat ((if x < 0 then \<lceil>x\<rceil> else \<lfloor>x\<rfloor>) mod 2 ^ 64)"

definition bytes_per_frame :: "WAVFILE \<Rightarrow> 32 word" where
  "bytes_per_frame wavfile =
     c_div (int_of_short (bits wavfile)) 8 * int_of_short (channels wavfile)"

definition wav_stream_seek :: "WAVFILE \<Rightarrow> real \<Rightarrow> bool \<times> WAVFILE" where
  "wav_stream_seek wavfile time =
     (let align = bytes_per_frame wavfile;
          cpos = ulong_of_double
                   (time * double_of_int
                      (freq wavfile * c_div (int_of_short (bits wavfile)) 8
                         * int_of_short (channels wavfile)))
      in if loop_end wavfile \<le> time then (False, wavfile)
         else (let cpos1 = (cpos + cpos mod size_t_of (sint align)) mod 2 ^ 64;
                   (ok, f1) = al_fseek_set (f wavfile) ((dpos wavfile + cpos1) mod 2 ^ 64)
               in (ok, wavfile\<lparr>f := f1\<rparr>)))"

definition wav_stream_rewind :: "WAVFILE \<Rightarrow> bool \<times> WAVFILE" where
  "wav_stream_rewind wavfile = wav_stream_seek wavfile (loop_start wavfile)"

definition wav_stream_get_position :: "WAVFILE \<Rightarrow> real" where
  "wav_stream_get_position wavfile =
     (let samples_per = double_of_int (bytes_per_frame wavfile) * double_of_int (freq wavfile)
      in real (size_t_of (int (al_ftell (f wavfile)) - int (dpos wavfile))) / samples_per)"

definition wav_stream_get_length :: "WAVFILE \<Rightarrow> real" where
  "wav_stream_get_length wavfile =
     double_of_int (samples wavfile) / double_of_int (freq wavfile)"

definition wav_stream_set_loop :: "WAVFILE \<Rightarrow> real \<Rightarrow> real \<Rightarrow> bool \<times> WAVFILE" where
  "wav_stream_set_loop wavfile start end =
     (True, wavfile\<lparr>loop_start := start, loop_end := end\<rparr>)"

text \<open>
  \<open>wav_stream_update\<close>: \<open>onedir\<close> says whether the stream's play mode is
  \<open>_ALLEGRO_PLAYMODE_STREAM_ONEDIR\<close>. The result is the number of bytes, the block and
  the handle.
\<close>

definition int_of_double :: "real \<Rightarrow> 32 word" where
  "int_of_double x = word_of_int (if x < 0 then \<lceil>x\<rceil> else \<lfloor>x\<rfloor>)"

definition wav_stream_update ::
  "bool \<Rightarrow> WAVFILE \<Rightarrow> byte list \<Rightarrow> nat \<Rightarrow> nat \<times> byte list \<times> WAVFILE" where
  "wav_stream_update onedir wavfile data buf_size =
     (let bytes_per_sample = bytes_per_frame wavfile;
          ctime = wav_stream_get_position wavfile;
          btime = (real buf_size / double_of_int bytes_per_sample)
                    / double_of_int (freq wavfile);
          n :: 32 word =
            (if onedir \<and> loop_end wavfile < ctime + btime
             then int_of_double ((loop_end wavfile - ctime) * double_of_int (freq wavfile))
             else word_of_nat (buf_size div size_t_of (sint bytes_per_sample)))
      in if sint n < 0 then (0, data, wavfile)
         else (let (samples_read, data1, w1) = wav_read wavfile data (size_t_of (sint n))
               in (size_t_of (sint (word_of_nat samples_read * bytes_per_sample)),
                   data1, w1)))"

subsection \<open>al_load_wav\<close>

text \<open>
  Modelled from the spec: \<open>ALLEGRO_SAMPLE\<close> is declared outside wav.c; it is the
  SampleBuffer of the spec, a flat buffer with its encoding, channel configuration,
  rate and length. The buffer is the memory its pointer refers to.
\<close>

datatype ALLEGRO_AUDIO_DEPTH =
  ALLEGRO_AUDIO_DEPTH_INT8 | ALLEGRO_AUDIO_DEPTH_INT16 | ALLEGRO_AUDIO_DEPTH_INT24
| ALLEGRO_AUDIO_DEPTH_FLOAT32 | ALLEGRO_AUDIO_DEPTH_UINT8 | ALLEGRO_AUDIO_DEPTH_UINT16
| ALLEGRO_AUDIO_DEPTH_UINT24 | ALLEGRO_AUDIO_DEPTH_OTHER

record ALLEGRO_SAMPLE =
  depth :: ALLEGRO_AUDIO_DEPTH
  chan_conf :: nat
  frequency :: nat
  len :: nat
  buffer :: "byte list"

definition memset :: "byte list \<Rightarrow> byte \<Rightarrow> nat \<Rightarrow> byte list" where
  "memset data c n = replicate n c @ drop n data"

text \<open>
  \<open>heap\<close> is \<open>malloc\<close>: for a size, the block it returns with its contents, or \<open>None\<close>.
  \<open>create\<close> is \<open>al_create_sample\<close> applied to the block, the frame count, the rate and
  the configurations that \<open>_al_word_size_to_depth_conf\<close> and \<open>_al_count_to_channel_conf\<close>
  give for the word size and the channel count; all three are declared outside wav.c.
  The sample refers to the block, so it holds what is written to the block afterwards.
\<close>

definition al_load_wav ::
  "(byte list \<Rightarrow> 32 word \<Rightarrow> 32 word \<Rightarrow> 32 word \<Rightarrow> 16 word \<Rightarrow> ALLEGRO_SAMPLE option)
   \<Rightarrow> (nat \<Rightarrow> byte list option) \<Rightarrow> ALLEGRO_FILE option \<Rightarrow> WAVFILE option
   \<Rightarrow> ALLEGRO_SAMPLE option option" where
  "al_load_wav create heap fo mo =
     (case wav_open fo mo of
        None \<Rightarrow> None
      | Some None \<Rightarrow> Some None
      | Some (Some wavfile) \<Rightarrow>
          (let n = size_t_of (sint (bytes_per_frame wavfile * samples wavfile))
           in case heap n of
                None \<Rightarrow> Some None
              | Some data \<Rightarrow>
                  (case create data (samples wavfile) (freq wavfile)
                          (c_div (int_of_short (bits wavfile)) 8) (channels wavfile) of
                     None \<Rightarrow> Some None
                   | Some spl \<Rightarrow>
                       (let data1 = memset data 0 n;
                            (k, data2, w1) =
                              wav_read wavfile data1 (size_t_of (sint (samples wavfile)))
                        in Some (Some (spl\<lparr>buffer := data2\<rparr>))))))"

subsection \<open>al_save_wav_stream\<close>

text \<open>
  Single-precision arithmetic is outside the embedding: the conversions of the 24-bit
  and the float branches are parameters, from the 32-bit value in the buffer to the
  16-bit value written.
\<close>

record sample_conv =
  conv_s24 :: "32 word \<Rightarrow> 16 word"
  conv_u24 :: "32 word \<Rightarrow> 16 word"
  conv_f32 :: "32 word \<Rightarrow> 16 word"

definition wav_channels :: "ALLEGRO_SAMPLE \<Rightarrow> nat" where
  "wav_channels spl = drop_bit 4 (chan_conf spl) + (chan_conf spl AND 0xF)"

definition wav_bits :: "ALLEGRO_SAMPLE \<Rightarrow> nat" where
  "wav_bits spl =
     (if depth spl = ALLEGRO_AUDIO_DEPTH_INT8 \<or> depth spl = ALLEGRO_AUDIO_DEPTH_UINT8
      then 8 else 16)"

text \<open>
  \<open>mixer_frac_shift\<close> is the macro \<open>MIXER_FRAC_SHIFT\<close>, defined outside wav.c. The result
  is the return value and the stream.
\<close>

definition al_save_wav_stream ::
  "nat \<Rightarrow> sample_conv \<Rightarrow> ALLEGRO_FILE \<Rightarrow> ALLEGRO_SAMPLE \<Rightarrow> bool \<times> ALLEGRO_FILE" where
  "al_save_wav_stream mixer_frac_shift cv pf spl =
     (let chans = wav_channels spl;
          bts = wav_bits spl
      in if chans < 1 \<or> 2 < chans then (False, pf)
         else
           (let smpls = drop_bit mixer_frac_shift (len spl);
                data_size = (smpls * chans * bts) mod 2 ^ 64 div 8;
                n = (smpls * chans) mod 2 ^ 64;
                h1 = al_fputs pf RIFF_tag;
                h2 = al_fwrite32le h1 (word_of_nat (36 + data_size));
                h3 = al_fputs h2 WAVE_tag;
                h4 = al_fputs h3 fmt_tag;
                h5 = al_fwrite32le h4 16;
                h6 = al_fwrite16le h5 1;
                h7 = al_fwrite16le h6 (word_of_nat chans);
                h8 = al_fwrite32le h7 (word_of_nat (frequency spl));
                h9 = al_fwrite32le h8
                       (word_of_nat ((frequency spl * chans * bts) mod 2 ^ 64 div 8));
                h10 = al_fwrite16le h9 (word_of_nat (chans * bts div 8));
                h11 = al_fwrite16le h10 (word_of_nat bts);
                h12 = al_fputs h11 data_tag;
                p1 = al_fwrite32le h12 (word_of_nat data_size)
            in if depth spl = ALLEGRO_AUDIO_DEPTH_UINT8
               then (True, al_fwrite p1 (take ((smpls * chans) mod 2 ^ 64) (buffer spl)))
               else if depth spl = ALLEGRO_AUDIO_DEPTH_INT16
               then (True, al_fwrite p1 (take ((smpls * chans * 2) mod 2 ^ 64) (buffer spl)))
               else if depth spl = ALLEGRO_AUDIO_DEPTH_INT8
               then (True, fold (\<lambda>c p. al_fputc p (c + 0x80)) (take smpls (buffer spl)) p1)
               else if depth spl = ALLEGRO_AUDIO_DEPTH_UINT16
               then (True, fold (\<lambda>v p. al_fwrite16le p (v - 0x8000))
                             (take n (view16 (buffer spl))) p1)
               else if depth spl = ALLEGRO_AUDIO_DEPTH_INT16
               then (True, fold (\<lambda>v p. al_fwrite16le p (v - 0x8000))
                             (take n (view16 (buffer spl))) p1)
               else if depth spl = ALLEGRO_AUDIO_DEPTH_INT24
               then (True, fold (\<lambda>v p. al_fwrite16le p (conv_s24 cv v))
                             (take n (view32 (buffer spl))) p1)
               else if depth spl = ALLEGRO_AUDIO_DEPTH_UINT24
               then (True, fold (\<lambda>v p. al_fwrite16le p (conv_u24 cv v))
                             (take n (view32 (buffer spl))) p1)
               else if depth spl = ALLEGRO_AUDIO_DEPTH_FLOAT32
               then (True, fold (\<lambda>v p. al_fwrite16le p (conv_f32 cv v))
                             (take n (view32 (buffer spl))) p1)
               else (False, p1)))"

subsection \<open>Specification-side definitions\<close>

text \<open>
  The header of a written container as the spec lays it out, from \<open>"RIFF"\<close> to the
  length of the data chunk.
\<close>

definition wav_header :: "nat \<Rightarrow> nat \<Rightarrow> nat \<Rightarrow> nat \<Rightarrow> byte list" where
  "wav_header chans bts rate data_size =
     RIFF_tag @ le32 (word_of_nat (36 + data_size)) @ WAVE_tag
     @ fmt_tag @ le32 16 @ le16 1 @ le16 (word_of_nat chans) @ le32 (word_of_nat rate)
     @ le32 (word_of_nat ((rate * chans * bts) mod 2 ^ 64 div 8))
     @ le16 (word_of_nat (chans * bts div 8)) @ le16 (word_of_nat bts)
     @ data_tag @ le32 (word_of_nat data_size)"

text \<open>The value that two and four bytes hold in little-endian order.\<close>

definition word16_le :: "byte list \<Rightarrow> 16 word" where
  "word16_le bs = (case bs of [a, b] \<Rightarrow> ucast a OR push_bit 8 (ucast b) | _ \<Rightarrow> 0)"

definition word32_le :: "byte list \<Rightarrow> 32 word" where
  "word32_le bs =
     (case bs of
        [a, b, c, d] \<Rightarrow>
          ucast a OR push_bit 8 (ucast b) OR push_bit 16 (ucast c) OR push_bit 24 (ucast d)
      | _ \<Rightarrow> 0)"


text \<open>
  What the chunk loop keeps between the handle it starts from and the handle it leaves
  through \<open>break\<close>: the stream's contents and the fields the loop does not touch; the
  cursor stands just after a data tag; a valid bit depth and channel count stay valid.
\<close>

definition chunks_inv :: "WAVFILE \<Rightarrow> WAVFILE \<Rightarrow> bool" where
  "chunks_inv w w' \<longleftrightarrow>
     fbytes (f w') = fbytes (f w) \<and> dpos w' = dpos w \<and> samples w' = samples w
     \<and> loop_start w' = loop_start w \<and> loop_end w' = loop_end w
     \<and> 4 \<le> fpos (f w')
     \<and> take 4 (drop (fpos (f w') - 4) (fbytes (f w))) = data_tag
     \<and> (bits w = 8 \<or> bits w = 16 \<longrightarrow> bits w' = 8 \<or> bits w' = 16)
     \<and> (channels w = 1 \<or> channels w = 2 \<longrightarrow> channels w' = 1 \<or> channels w' = 2)"

text \<open>
  A chunk of the container is a tag and a body; its bytes are the tag, the length of the
  body in four bytes and the body. The loop passes over a chunk whose tag is neither
  \<open>"fmt "\<close> nor \<open>"data"\<close> and whose length is a non-negative \<open>int\<close>.
\<close>

definition chunk_bytes :: "byte list \<times> byte list \<Rightarrow> byte list" where
  "chunk_bytes c = fst c @ le32 (word_of_nat (length (snd c))) @ snd c"

definition skipped :: "byte list \<times> byte list \<Rightarrow> bool" where
  "skipped c \<longleftrightarrow>
     length (fst c) = 4 \<and> fst c \<noteq> fmt_tag \<and> fst c \<noteq> data_tag \<and> length (snd c) < 2 ^ 31"

text \<open>
  Examples: a block as \<open>malloc\<close> may return it, and a stereo, 16-bit, 44100 Hz container
  whose data chunk declares nine bytes.
\<close>

definition fresh_block :: WAVFILE where
  "fresh_block =
     \<lparr>f = \<lparr>fbytes = [], fpos = 0\<rparr>, dpos = 7, freq = 7, bits = 7, channels = 7,
      samples = 77, loop_start = 0, loop_end = 0\<rparr>"

definition stereo16_nine :: "byte list" where
  "stereo16_nine =
     RIFF_tag @ [45, 0, 0, 0] @ WAVE_tag @ fmt_tag @ le32 16 @ le16 1 @ le16 2 @ le32 44100
     @ le32 176400 @ le16 4 @ le16 16 @ data_tag @ le32 9"



text \<open>
  A mono, 8-bit container with no format chunk: a \<open>"LIST"\<close> chunk of two bytes, then four
  bytes of data.
\<close>

definition mono8_list :: "byte list" where
  "mono8_list =
     RIFF_tag @ [22, 0, 0, 0] @ WAVE_tag @ chunk_bytes ([0x4C, 0x49, 0x53, 0x54], [1, 2])
     @ data_tag @ le32 4 @ [0, 0x40, 0x80, 0xC0]"

text \<open>The format of a handle is valid; two handles have the same format.\<close>

definition valid_format :: "WAVFILE \<Rightarrow> bool" where
  "valid_format w \<longleftrightarrow> (bits w = 8 \<or> bits w = 16) \<and> (channels w = 1 \<or> channels w = 2)"

definition same_format :: "WAVFILE \<Rightarrow> WAVFILE \<Rightarrow> bool" where
  "same_format w w' \<longleftrightarrow> bits w' = bits w \<and> channels w' = channels w"

text \<open>The bytes of a format chunk, from its tag to the bit depth.\<close>

definition fmt_bytes ::
  "32 word \<Rightarrow> 16 word \<Rightarrow> 16 word \<Rightarrow> 32 word \<Rightarrow> byte list \<Rightarrow> 16 word \<Rightarrow> byte list" where
  "fmt_bytes len0 pcm ch rate six bts =
     fmt_tag @ le32 len0 @ le16 pcm @ le16 ch @ le32 rate @ six @ le16 bts"

text \<open>A container whose format chunk declares three channels.\<close>

definition three_channels :: "byte list" where
  "three_channels =
     RIFF_tag @ [36, 0, 0, 0] @ WAVE_tag @ fmt_bytes 16 1 3 44100 [0x30, 0x13, 0x08, 0, 6, 0] 16
     @ data_tag @ le32 0"

text \<open>A stream that ends right after the data tag.\<close>

definition data_tag_only :: "byte list" where
  "data_tag_only = RIFF_tag @ [8, 0, 0, 0] @ WAVE_tag @ data_tag"

text \<open>
  The size of a frame in bytes, and the whole frames between the cursor and the end of
  the stream.
\<close>

definition frame_bytes :: "WAVFILE \<Rightarrow> nat" where
  "frame_bytes w = unat (bits w) div 8 * unat (channels w)"

definition frames_left :: "WAVFILE \<Rightarrow> nat" where
  "frames_left w = (length (fbytes (f w)) - fpos (f w)) div frame_bytes w"

text \<open>
  Examples for loading: the container that declares nine bytes, holding three; an
  allocator whose blocks are filled with 0xAA; an \<open>al_create_sample\<close> that succeeds.
\<close>

definition stereo16_short :: "byte list" where
  "stereo16_short = stereo16_nine @ [1, 2, 3]"

definition filled_heap :: "nat \<Rightarrow> byte list option" where
  "filled_heap n = (if n < 2 ^ 63 then Some (replicate n 0xAA) else None)"

definition plain_create ::
  "byte list \<Rightarrow> 32 word \<Rightarrow> 32 word \<Rightarrow> 32 word \<Rightarrow> 16 word \<Rightarrow> ALLEGRO_SAMPLE option" where
  "plain_create d n r b c =
     Some \<lparr>depth = (if b = 1 then ALLEGRO_AUDIO_DEPTH_UINT8 else ALLEGRO_AUDIO_DEPTH_INT16),
           chan_conf = 16 * unat c, frequency = unat r, len = unat n, buffer = d\<rparr>"

text \<open>
  Examples for writing: conversions that are never used, a stereo sample of one frame
  with the 16-bit values 1 and -1, and a mono sample of no frames with the rate
  \<open>2 ^ 31\<close>.
\<close>

definition no_conv :: sample_conv where
  "no_conv = \<lparr>conv_s24 = (\<lambda>v. 0), conv_u24 = (\<lambda>v. 0), conv_f32 = (\<lambda>v. 0)\<rparr>"

definition one_frame :: ALLEGRO_SAMPLE where
  "one_frame =
     \<lparr>depth = ALLEGRO_AUDIO_DEPTH_INT16, chan_conf = 0x20, frequency = 44100, len = 256,
      buffer = [1, 0, 0xFF, 0xFF]\<rparr>"

definition fast_rate :: ALLEGRO_SAMPLE where
  "fast_rate =
     \<lparr>depth = ALLEGRO_AUDIO_DEPTH_INT16, chan_conf = 0x10, frequency = 2147483648, len = 0,
      buffer = []\<rparr>"

section \<open>Bytes and words\<close>

lemma al_fwrite_append: "al_fwrite (al_fwrite fl xs) ys = al_fwrite fl (xs @ ys)"
  by (cases "fpos fl \<le> length (fbytes fl)")
    (auto simp add: al_fwrite_def Let_def min_def add.commute add.left_commute)

lemma wav_header_written:
  "al_fwrite32le
     (al_fputs
        (al_fwrite16le
           (al_fwrite16le
              (al_fwrite32le
                 (al_fwrite32le
                    (al_fwrite16le
                       (al_fwrite16le
                          (al_fwrite32le
                             (al_fputs
                                (al_fputs
                                   (al_fwrite32le (al_fputs pf RIFF_tag)
                                      (word_of_nat (36 + ds)))
                                   WAVE_tag)
                                fmt_tag)
                             16)
                          1)
                       (word_of_nat ch))
                    (word_of_nat rate))
                 (word_of_nat ((rate * ch * bts) mod 2 ^ 64 div 8)))
              (word_of_nat (ch * bts div 8)))
           (word_of_nat bts))
        data_tag)
     (word_of_nat ds)
   = al_fwrite pf (wav_header ch bts rate ds)"
  unfolding al_fputs_def al_fwrite32le_def al_fwrite16le_def al_fwrite_append wav_header_def
  by simp

lemma le32_bytes:
  "(ucast (ucast c :: byte) OR push_bit 8 (ucast (ucast (drop_bit 8 c) :: byte))
     OR push_bit 16 (ucast (ucast (drop_bit 16 c) :: byte))
     OR push_bit 24 (ucast (ucast (drop_bit 24 c) :: byte))) = (c :: 32 word)"
  (is "?lhs = c")
proof (rule bit_word_eqI)
  fix n :: nat
  assume "n < LENGTH(32)"
  then show "bit ?lhs n = bit c n"
    by (cases "n < 8"; cases "n < 16"; cases "n < 24") (auto simp add: bit_simps)
qed

lemma le16_bytes:
  "(ucast (ucast c :: byte) OR push_bit 8 (ucast (ucast (drop_bit 8 c) :: byte)))
     = (c :: 16 word)"
  (is "?lhs = c")
proof (rule bit_word_eqI)
  fix n :: nat
  assume "n < LENGTH(16)"
  then show "bit ?lhs n = bit c n"
    by (cases "n < 8") (auto simp add: bit_simps)
qed

lemma word32_le_le32 [simp]: "word32_le (le32 c) = c"
  by (simp add: word32_le_def le32_def le32_bytes)

lemma word16_le_le16 [simp]: "word16_le (le16 c) = c"
  by (simp add: word16_le_def le16_def le16_bytes)

lemma length_tags [simp]:
  "length RIFF_tag = 4" "length WAVE_tag = 4" "length fmt_tag = 4" "length data_tag = 4"
  by (simp_all add: RIFF_tag_def WAVE_tag_def fmt_tag_def data_tag_def)

lemma length_le16 [simp]: "length (le16 c) = 2"
  by (simp add: le16_def)

lemma length_le32 [simp]: "length (le32 c) = 4"
  by (simp add: le32_def)

lemma length_fmt_bytes [simp]:
  "length (fmt_bytes len0 pcm ch rate six bts) = 18 + length six"
  by (simp add: fmt_bytes_def)

lemma wav_header_layout:
  "wav_header chans bts rate dsz =
     RIFF_tag @ le32 (word_of_nat (36 + dsz)) @ WAVE_tag
     @ fmt_bytes 16 1 (word_of_nat chans) (word_of_nat rate)
         (le32 (word_of_nat ((rate * chans * bts) mod 2 ^ 64 div 8))
          @ le16 (word_of_nat (chans * bts div 8)))
         (word_of_nat bts)
     @ data_tag @ le32 (word_of_nat dsz)"
  by (simp add: wav_header_def fmt_bytes_def)

lemma length_wav_header [simp]: "length (wav_header chans bts rate dsz) = 44"
  by (simp add: wav_header_layout)

lemma view16_le:
  "(ucast (ucast a OR push_bit 8 (ucast b) :: 32 word) :: 16 word)
     = ucast a OR push_bit 8 (ucast (b :: byte))" for a :: byte
  by (rule bit_word_eqI) (auto simp add: bit_simps)

lemma bytes_le16: "le16 (ucast a OR push_bit 8 (ucast b)) = [a, b :: byte]"
  unfolding le16_def
  apply simp
  apply (rule conjI)
   apply (rule bit_word_eqI)
   apply (auto simp add: bit_simps dest: bit_imp_le_length)[1]
  apply (rule bit_word_eqI)
  apply (auto simp add: bit_simps dest: bit_imp_le_length)
  done

lemma take2_drop: "p + 2 \<le> length xs \<Longrightarrow> take 2 (drop p xs) = [xs ! p, xs ! Suc p]"
  by (auto simp add: list_eq_iff_nth_eq nth_Cons' numeral_eq_Suc less_Suc_eq)

lemma take4_drop:
  "p + 4 \<le> length xs \<Longrightarrow>
   take 4 (drop p xs) = [xs ! p, xs ! Suc p, xs ! Suc (Suc p), xs ! Suc (Suc (Suc p))]"
  by (auto simp add: list_eq_iff_nth_eq nth_Cons' numeral_eq_Suc less_Suc_eq)

section \<open>read16 and read32 on a stream\<close>

lemma read16_ok:
  assumes "fpos fl + 2 \<le> length (fbytes fl)"
  shows "read16 fl v =
    (True, word16_le (take 2 (drop (fpos fl) (fbytes fl))), fl\<lparr>fpos := fpos fl + 2\<rparr>)"
  using assms
  by (simp add: read16_def al_fgetc_def take2_drop word16_le_def getc_int_def view16_le)

lemma read32_ok:
  assumes "fpos fl + 4 \<le> length (fbytes fl)"
  shows "read32 fl v =
    (True, word32_le (take 4 (drop (fpos fl) (fbytes fl))), fl\<lparr>fpos := fpos fl + 4\<rparr>)"
  using assms
  by (simp add: read32_def al_fgetc_def take4_drop word32_le_def getc_int_def)

lemma read16_eof:
  assumes "length (fbytes fl) < fpos fl + 2"
  shows "read16 fl v = (False, v, fl\<lparr>fpos := max (fpos fl) (length (fbytes fl))\<rparr>)"
  using assms by (auto simp add: read16_def al_fgetc_def max_def)

lemma read32_eof:
  assumes "length (fbytes fl) < fpos fl + 4"
  shows "read32 fl v = (False, v, fl\<lparr>fpos := max (fpos fl) (length (fbytes fl))\<rparr>)"
  using assms by (auto simp add: read32_def al_fgetc_def max_def)

lemma read16_fbytes: "read16 fl v = (r, x, fl') \<Longrightarrow> fbytes fl' = fbytes fl"
  by (cases "fpos fl + 2 \<le> length (fbytes fl)") (auto simp add: read16_ok read16_eof)

lemma read32_fbytes: "read32 fl v = (r, x, fl') \<Longrightarrow> fbytes fl' = fbytes fl"
  by (cases "fpos fl + 4 \<le> length (fbytes fl)") (auto simp add: read32_ok read32_eof)

section \<open>C arithmetic\<close>

lemma sint_c_div2: "sint (c_div a 2) = sint a sdiv 2"
proof -
  have "- (2 ^ 31) \<le> sint a" "sint a < 2 ^ 31"
    using sint_ge [of a] sint_lt [of a] by simp_all
  then have "- (2 ^ 31) \<le> sint a sdiv 2 \<and> sint a sdiv 2 < 2 ^ 31"
    by (auto simp add: signed_divide_int_def sgn_if)
  then show ?thesis
    by (simp add: c_div_def sint_sbintrunc' signed_take_bit_int_eq_self)
qed

lemma sint_succ:
  assumes "sint (a :: 32 word) \<noteq> 2 ^ 31 - 1"
  shows "sint (a + 1) = sint a + 1"
proof -
  have "- (2 ^ 31) \<le> sint a" "sint a < 2 ^ 31"
    using sint_ge [of a] sint_lt [of a] by simp_all
  with assms show ?thesis
    by (simp add: sint_word_add signed_take_bit_int_eq_self)
qed

section \<open>The chunk loop\<close>

lemma fbytes_al_fseek_cur [simp]: "fbytes (al_fseek_cur fl off) = fbytes fl"
  by (simp add: al_fseek_cur_def)

lemma wav_chunk_next_shape:
  assumes "wav_chunk w = Chunk_next w'"
  shows "\<exists>fl fr b ch. w' = w\<lparr>f := fl, freq := fr, bits := b, channels := ch\<rparr>
           \<and> fbytes fl = fbytes (f w)
           \<and> (b = bits w \<or> b = 8 \<or> b = 16) \<and> (ch = channels w \<or> ch = 1 \<or> ch = 2)"
proof -
  obtain buffer f1 where r: "al_fread (f w) 4 = (buffer, f1)"
    by (cases "al_fread (f w) 4")
  then have f1: "fbytes f1 = fbytes (f w)"
    by (auto simp add: al_fread_def Let_def)
  show ?thesis
  proof (cases "buffer = fmt_tag")
    case True
    obtain r1 len0 f2 where a: "read32 f1 0 = (r1, len0, f2)"
      by (cases "read32 f1 0")
    obtain r2 pcm f3 where b: "read16 f2 0 = (r2, pcm, f3)"
      by (cases "read16 f2 0")
    obtain r3 ch f4 where c: "read16 f3 (channels w) = (r3, ch, f4)"
      by (cases "read16 f3 (channels w)")
    obtain r4 fr f5 where d: "read32 f4 (freq w) = (r4, fr, f5)"
      by (cases "read32 f4 (freq w)")
    obtain r5 bt f7 where e: "read16 (al_fseek_cur f5 6) (bits w) = (r5, bt, f7)"
      by (cases "read16 (al_fseek_cur f5 6) (bits w)")
    have fb: "fbytes f7 = fbytes (f w)"
      using read32_fbytes [OF a] read16_fbytes [OF b] read16_fbytes [OF c]
        read32_fbytes [OF d] read16_fbytes [OF e] f1 by simp
    from assms r True a b c d e
    have "w' = w\<lparr>f := (if 0 < sint (len0 - 16) then al_fseek_cur f7 (sint (len0 - 16)) else f7),
                 freq := fr, bits := bt, channels := ch\<rparr>
          \<and> (ch = 1 \<or> ch = 2) \<and> (bt = 8 \<or> bt = 16)"
      by (simp add: wav_chunk_def Let_def split: if_splits)
    with fb show ?thesis
      by (intro exI [of _ "if 0 < sint (len0 - 16) then al_fseek_cur f7 (sint (len0 - 16)) else f7"]
          exI [of _ fr] exI [of _ bt] exI [of _ ch]) auto
  next
    case False
    obtain r1 len0 f2 where a: "read32 f1 0 = (r1, len0, f2)"
      by (cases "read32 f1 0")
    from assms r False a
    have "w' = w\<lparr>f := al_fseek_cur f2 (sint len0)\<rparr>"
      by (simp add: wav_chunk_def Let_def split: if_splits)
    moreover have "fbytes (al_fseek_cur f2 (sint len0)) = fbytes (f w)"
      using read32_fbytes [OF a] f1 by simp
    ultimately show ?thesis
      by (intro exI [of _ "al_fseek_cur f2 (sint len0)"] exI [of _ "freq w"]
          exI [of _ "bits w"] exI [of _ "channels w"]) simp
  qed
qed

lemma wav_chunk_next:
  assumes "wav_chunk w = Chunk_next w'"
  shows "fbytes (f w') = fbytes (f w)"
    and "dpos w' = dpos w" and "samples w' = samples w"
    and "loop_start w' = loop_start w" and "loop_end w' = loop_end w"
    and "(bits w = 8 \<or> bits w = 16) \<Longrightarrow> bits w' = 8 \<or> bits w' = 16"
    and "(channels w = 1 \<or> channels w = 2) \<Longrightarrow> channels w' = 1 \<or> channels w' = 2"
  using wav_chunk_next_shape [OF assms] by auto

lemma wav_chunk_data:
  assumes "wav_chunk w = Chunk_data w'"
  shows "w' = w\<lparr>f := (f w)\<lparr>fpos := fpos (f w) + 4\<rparr>\<rparr>"
    and "take 4 (drop (fpos (f w)) (fbytes (f w))) = data_tag"
  using assms
  by (auto simp add: wav_chunk_def Let_def al_fread_def split: prod.splits if_splits)

lemma wav_chunks_inv:
  assumes "wav_chunks w = Some r"
  shows "\<forall>w'. r = Some w' \<longrightarrow> chunks_inv w w'"
proof (rule wav_chunks.raw_induct
    [where P = "\<lambda>w r. \<forall>w'. r = Some w' \<longrightarrow> chunks_inv w w'", OF _ assms], goal_cases)
  case (1 loop w r)
  show ?case
  proof (cases "wav_chunk w")
    case Chunk_error
    with 1(2) show ?thesis by simp
  next
    case (Chunk_data w1)
    with 1(2) have r: "r = Some w1" by simp
    from wav_chunk_data [OF Chunk_data] r show ?thesis
      by (simp add: chunks_inv_def)
  next
    case (Chunk_next w1)
    with 1(2) have "loop w1 = Some r" by simp
    then have ih: "\<forall>w'. r = Some w' \<longrightarrow> chunks_inv w1 w'" by (rule 1(1))
    show ?thesis
    proof (intro allI impI)
      fix w' assume "r = Some w'"
      with ih have "chunks_inv w1 w'" by simp
      with wav_chunk_next [OF Chunk_next] show "chunks_inv w w'"
        by (auto simp add: chunks_inv_def)
    qed
  qed
qed

section \<open>The loop on a stream of known layout\<close>

lemma al_fread_at:
  assumes "fbytes fl = pre @ xs @ post" and "fpos fl = length pre" and "n = length xs"
  shows "al_fread fl n = (xs, fl\<lparr>fpos := length pre + length xs\<rparr>)"
  using assms by (simp add: al_fread_def)

lemma read32_at:
  assumes "fbytes fl = pre @ le32 c @ post" and "fpos fl = length pre"
  shows "read32 fl v = (True, c, fl\<lparr>fpos := length pre + 4\<rparr>)"
  using assms by (simp add: read32_ok)

lemma read16_at:
  assumes "fbytes fl = pre @ le16 c @ post" and "fpos fl = length pre"
  shows "read16 fl v = (True, c, fl\<lparr>fpos := length pre + 2\<rparr>)"
  using assms by (simp add: read16_ok)

lemma sint_word_of_nat32:
  assumes "n < 2 ^ 31"
  shows "sint (word_of_nat n :: 32 word) = int n"
proof -
  have a: "int n < 2 ^ 31" using assms by simp
  have b: "- (2 ^ 31) \<le> int n" by (rule order_trans [of _ 0]) simp_all
  have "signed_take_bit 31 (int n) = int n"
    using a b by (simp add: signed_take_bit_int_eq_self)
  then show ?thesis by (simp add: signed_of_nat)
qed

lemma wav_chunk_found:
  assumes "fbytes (f w) = pre @ data_tag @ post" and "fpos (f w) = length pre"
  shows "wav_chunk w = Chunk_data (w\<lparr>f := (f w)\<lparr>fpos := length pre + 4\<rparr>\<rparr>)"
proof -
  have "al_fread (f w) 4 = (data_tag, (f w)\<lparr>fpos := length pre + 4\<rparr>)"
    using al_fread_at [OF assms, of 4] by (simp add: data_tag_def)
  then show ?thesis
    by (simp add: wav_chunk_def data_tag_def fmt_tag_def)
qed

lemma wav_chunk_skip:
  assumes "fbytes (f w) = pre @ chunk_bytes c @ post" and "fpos (f w) = length pre"
    and "skipped c"
  shows "wav_chunk w = Chunk_next (w\<lparr>f := (f w)\<lparr>fpos := length pre + length (chunk_bytes c)\<rparr>\<rparr>)"
proof -
  obtain tag body where c: "c = (tag, body)" by (cases c)
  from assms(3) c have tag: "length tag = 4" "tag \<noteq> fmt_tag" "tag \<noteq> data_tag"
    and body: "length body < 2 ^ 31"
    by (simp_all add: skipped_def)
  let ?n = "word_of_nat (length body) :: 32 word"
  let ?f1 = "(f w)\<lparr>fpos := length pre + 4\<rparr>"
  have b: "fbytes (f w) = pre @ tag @ (le32 ?n @ body @ post)"
    using assms(1) c by (simp add: chunk_bytes_def)
  have r: "al_fread (f w) 4 = (tag, ?f1)"
    using al_fread_at [OF b assms(2), of 4] tag(1) by simp
  have b1: "fbytes ?f1 = (pre @ tag) @ le32 ?n @ (body @ post)"
    using b by simp
  have r32: "read32 ?f1 0 = (True, ?n, (f w)\<lparr>fpos := length pre + 8\<rparr>)"
    using read32_at [OF b1, of 0] tag(1) by simp
  show ?thesis
    using r r32 tag body
    by (simp add: wav_chunk_def al_fseek_cur_def sint_word_of_nat32 c chunk_bytes_def)
qed

section \<open>What a successful wav_open returns\<close>

lemma wav_open_Some:
  assumes "wav_open (Some fl) (Some w0) = Some (Some h)"
  shows "\<exists>w. h = wav_count w \<and> fbytes (f w) = fbytes fl \<and> 4 \<le> fpos (f w)
            \<and> take 4 (drop (fpos (f w) - 4) (fbytes fl)) = data_tag
            \<and> (bits w = 8 \<or> bits w = 16) \<and> (channels w = 1 \<or> channels w = 2)
            \<and> samples w = samples w0 \<and> loop_start w = loop_start w0
            \<and> loop_end w = loop_end w0"
proof -
  let ?s = "w0\<lparr>freq := 22050, bits := 8, channels := 1, f := snd (al_fread fl 12)\<rparr>"
  from assms obtain w where w: "wav_chunks ?s = Some (Some w)" and h: "h = wav_count w"
    by (auto simp add: wav_open_def Let_def split: prod.splits if_splits option.splits)
  from wav_chunks_inv [OF w] have "chunks_inv ?s w" by simp
  then show ?thesis using h
    by (auto simp add: chunks_inv_def al_fread_def Let_def)
qed

lemma wav_count_fields:
  "bits (wav_count w) = bits w" "channels (wav_count w) = channels w"
  "freq (wav_count w) = freq w" "fbytes (f (wav_count w)) = fbytes (f w)"
  "loop_start (wav_count w) = loop_start w" "loop_end (wav_count w) = loop_end w"
  "fpos (f (wav_count w)) = dpos (wav_count w)"
  by (cases "fpos (f w) + 4 \<le> length (fbytes (f w))";
      simp add: wav_count_def Let_def read32_ok read32_eof al_ftell_def)+








lemma stereo16_nine_open:
  "wav_open (Some \<lparr>fbytes = stereo16_nine, fpos = 0\<rparr>) (Some fresh_block)
     = Some (Some (fresh_block\<lparr>f := \<lparr>fbytes = stereo16_nine, fpos = 44\<rparr>, dpos := 44,
          freq := 44100, bits := 16, channels := 2, samples := 2\<rparr>))"
  by code_simp

section \<open>The frame count\<close>




section \<open>Seeking\<close>

text \<open>
  C6. For every handle and every time \<open>t\<close> with \<open>loop_end \<le> t\<close>, \<open>wav_stream_seek\<close>
  returns false and leaves the handle as it was: the stream and its cursor are unchanged.
\<close>

theorem wav_stream_seek_rejects:
  assumes "loop_end w \<le> t"
  shows "wav_stream_seek w t = (False, w)"
  using assms by (simp add: wav_stream_seek_def Let_def)

theorem wav_stream_seek_rejects_witness:
  "loop_end (fresh_block\<lparr>loop_end := 3\<rparr>) \<le> 3
   \<and> wav_stream_seek (fresh_block\<lparr>loop_end := 3\<rparr>) 3 = (False, fresh_block\<lparr>loop_end := 3\<rparr>)"
  using wav_stream_seek_rejects [of "fresh_block\<lparr>loop_end := 3\<rparr>" 3] by simp

section \<open>A container without a format chunk\<close>

lemma wav_chunks_step:
  "wav_chunk w = Chunk_next w1 \<Longrightarrow> wav_chunks w = wav_chunks w1"
  "wav_chunk w = Chunk_data w2 \<Longrightarrow> wav_chunks w = Some (Some w2)"
  "wav_chunk w = Chunk_error \<Longrightarrow> wav_chunks w = Some None"
  by (subst wav_chunks.simps, simp)+

lemma wav_chunks_skip_all:
  assumes "\<forall>c\<in>set cs. skipped c"
    and "fbytes (f w) = pre @ concat (map chunk_bytes cs) @ post"
    and "fpos (f w) = length pre"
  shows "wav_chunks w =
    wav_chunks (w\<lparr>f := (f w)\<lparr>fpos := length pre + length (concat (map chunk_bytes cs))\<rparr>\<rparr>)"
  using assms
proof (induction cs arbitrary: w pre)
  case Nil
  have "w\<lparr>f := (f w)\<lparr>fpos := fpos (f w)\<rparr>\<rparr> = w" by simp
  then have "w\<lparr>f := (f w)\<lparr>fpos := length pre\<rparr>\<rparr> = w"
    by (simp only: Nil(3))
  then show ?case by simp
next
  case (Cons c cs)
  let ?w1 = "w\<lparr>f := (f w)\<lparr>fpos := length pre + length (chunk_bytes c)\<rparr>\<rparr>"
  have b: "fbytes (f w) = pre @ chunk_bytes c @ (concat (map chunk_bytes cs) @ post)"
    using Cons.prems(2) by simp
  have "wav_chunk w = Chunk_next ?w1"
    using wav_chunk_skip [OF b Cons.prems(3)] Cons.prems(1) by simp
  then have s: "wav_chunks w = wav_chunks ?w1" by (rule wav_chunks_step)
  have "wav_chunks ?w1 =
    wav_chunks (?w1\<lparr>f := (f ?w1)\<lparr>fpos := length (pre @ chunk_bytes c)
       + length (concat (map chunk_bytes cs))\<rparr>\<rparr>)"
    using Cons.prems(1) b by (intro Cons.IH) simp_all
  with s show ?case by (simp add: add.assoc)
qed

lemma riff_prefix:
  assumes "fbytes fl = RIFF_tag @ sz @ WAVE_tag @ rest" and "fpos fl = 0" and "length sz = 4"
  shows "wav_open (Some fl) (Some w0) =
    (case wav_chunks (w0\<lparr>freq := 22050, bits := 8, channels := 1, f := fl\<lparr>fpos := 12\<rparr>\<rparr>) of
       None \<Rightarrow> None | Some None \<Rightarrow> Some None | Some (Some w) \<Rightarrow> Some (Some (wav_count w)))"
proof -
  have "fbytes fl = [] @ (RIFF_tag @ sz @ WAVE_tag) @ rest" using assms(1) by simp
  from al_fread_at [OF this, of 12] assms(2,3)
  have "al_fread fl 12 = (RIFF_tag @ sz @ WAVE_tag, fl\<lparr>fpos := 12\<rparr>)"
    by (simp add: RIFF_tag_def WAVE_tag_def)
  then show ?thesis
    using assms(3) by (simp add: wav_open_def RIFF_tag_def WAVE_tag_def)
qed

text \<open>
  C9. A stream that starts with \<open>"RIFF"\<close>, four bytes and \<open>"WAVE"\<close>, and then holds any
  number of chunks that are neither format nor data chunks, followed by a data tag, opens
  successfully, and the handle has the defaults: 22050 Hz, 8 bits, one channel.
\<close>

theorem wav_open_defaults:
  assumes "fbytes fl = RIFF_tag @ sz @ WAVE_tag @ concat (map chunk_bytes cs) @ data_tag @ rest"
    and "fpos fl = 0" and "length sz = 4" and "\<forall>c\<in>set cs. skipped c"
  shows "\<exists>h. wav_open (Some fl) (Some w0) = Some (Some h)
            \<and> freq h = 22050 \<and> bits h = 8 \<and> channels h = 1"
proof -
  let ?L = "length (concat (map chunk_bytes cs))"
  let ?s = "w0\<lparr>freq := 22050, bits := 8, channels := 1, f := fl\<lparr>fpos := 12\<rparr>\<rparr>"
  let ?s1 = "w0\<lparr>freq := 22050, bits := 8, channels := 1, f := fl\<lparr>fpos := 12 + ?L\<rparr>\<rparr>"
  let ?s2 = "w0\<lparr>freq := 22050, bits := 8, channels := 1, f := fl\<lparr>fpos := 12 + ?L + 4\<rparr>\<rparr>"
  have b: "fbytes (f ?s) = (RIFF_tag @ sz @ WAVE_tag) @ concat (map chunk_bytes cs) @ (data_tag @ rest)"
    using assms(1) by simp
  have l: "length (RIFF_tag @ sz @ WAVE_tag) = 12"
    using assms(3) by (simp add: RIFF_tag_def WAVE_tag_def)
  have "wav_chunks ?s = wav_chunks ?s1"
    using wav_chunks_skip_all [OF assms(4) b] l by simp
  moreover have "wav_chunk ?s1 = Chunk_data ?s2"
  proof -
    have "fbytes (f ?s1) = (RIFF_tag @ sz @ WAVE_tag @ concat (map chunk_bytes cs)) @ data_tag @ rest"
      using assms(1) by simp
    from wav_chunk_found [OF this] l show ?thesis by simp
  qed
  ultimately have "wav_chunks ?s = Some (Some ?s2)"
    by (simp add: wav_chunks_step)
  then have "wav_open (Some fl) (Some w0) = Some (Some (wav_count ?s2))"
    using riff_prefix [OF assms(1-3)] by simp
  then show ?thesis by (simp add: wav_count_fields)
qed

theorem wav_open_defaults_witness:
  "\<exists>h. wav_open (Some \<lparr>fbytes = mono8_list, fpos = 0\<rparr>) (Some fresh_block) = Some (Some h)
       \<and> freq h = 22050 \<and> bits h = 8 \<and> channels h = 1"
proof -
  have "fbytes \<lparr>fbytes = mono8_list, fpos = 0\<rparr>
          = RIFF_tag @ [22, 0, 0, 0] @ WAVE_tag
            @ concat (map chunk_bytes [([0x4C, 0x49, 0x53, 0x54], [1, 2])])
            @ data_tag @ (le32 4 @ [0, 0x40, 0x80, 0xC0])"
    by (simp add: mono8_list_def)
  from wav_open_defaults [OF this] show ?thesis
    by (simp add: skipped_def fmt_tag_def data_tag_def)
qed

section \<open>The format of a handle\<close>

lemma wav_chunk_fmt_at:
  assumes "fbytes (f w) = pre @ fmt_bytes len0 pcm ch rate six bts @ post"
    and "fpos (f w) = length pre" and "length six = 6"
  shows "wav_chunk w =
    (if sint len0 < 16 then Chunk_error
     else if pcm \<noteq> 1 then Chunk_error
     else if ch \<noteq> 1 \<and> ch \<noteq> 2 then Chunk_error
     else if bts \<noteq> 8 \<and> bts \<noteq> 16 then Chunk_error
     else Chunk_next
       (w\<lparr>f := (if 0 < sint (len0 - 16)
                 then al_fseek_cur ((f w)\<lparr>fpos := length pre + 24\<rparr>) (sint (len0 - 16))
                 else (f w)\<lparr>fpos := length pre + 24\<rparr>),
           freq := rate, bits := bts, channels := ch\<rparr>))"
proof -
  let ?at = "\<lambda>n. (f w)\<lparr>fpos := length pre + n\<rparr>"
  have b0: "fbytes (f w) = pre @ fmt_tag @ (le32 len0 @ le16 pcm @ le16 ch @ le32 rate @ six @ le16 bts @ post)"
    using assms(1) by (simp add: fmt_bytes_def)
  have r0: "al_fread (f w) 4 = (fmt_tag, ?at 4)"
    using al_fread_at [OF b0 assms(2), of 4] by (simp add: fmt_tag_def)
  have b1: "fbytes (?at 4) = (pre @ fmt_tag) @ le32 len0 @ (le16 pcm @ le16 ch @ le32 rate @ six @ le16 bts @ post)"
    using b0 by simp
  have r1: "read32 (?at 4) 0 = (True, len0, ?at 8)"
    using read32_at [OF b1, of 0] by (simp add: fmt_tag_def)
  have b2: "fbytes (?at 8) = (pre @ fmt_tag @ le32 len0) @ le16 pcm @ (le16 ch @ le32 rate @ six @ le16 bts @ post)"
    using b0 by simp
  have r2: "read16 (?at 8) 0 = (True, pcm, ?at 10)"
    using read16_at [OF b2, of 0] by (simp add: fmt_tag_def)
  have b3: "fbytes (?at 10) = (pre @ fmt_tag @ le32 len0 @ le16 pcm) @ le16 ch @ (le32 rate @ six @ le16 bts @ post)"
    using b0 by simp
  have r3: "read16 (?at 10) (channels w) = (True, ch, ?at 12)"
    using read16_at [OF b3, of "channels w"] by (simp add: fmt_tag_def)
  have b4: "fbytes (?at 12) = (pre @ fmt_tag @ le32 len0 @ le16 pcm @ le16 ch) @ le32 rate @ (six @ le16 bts @ post)"
    using b0 by simp
  have r4: "read32 (?at 12) (freq w) = (True, rate, ?at 16)"
    using read32_at [OF b4, of "freq w"] by (simp add: fmt_tag_def)
  have r5: "al_fseek_cur (?at 16) 6 = ?at 22"
    by (simp add: al_fseek_cur_def)
  have b6: "fbytes (?at 22) = (pre @ fmt_tag @ le32 len0 @ le16 pcm @ le16 ch @ le32 rate @ six) @ le16 bts @ post"
    using b0 by simp
  have r6: "read16 (?at 22) (bits w) = (True, bts, ?at 24)"
    using read16_at [OF b6, of "bits w"] assms(3) by (simp add: fmt_tag_def)
  show ?thesis
    using r0 r1 r2 r3 r4 r5 r6
    by (simp add: wav_chunk_def)
qed

lemma wav_open_valid:
  assumes "wav_open fo mo = Some (Some h)"
  shows "valid_format h"
proof -
  from assms obtain fl w0 where "fo = Some fl" "mo = Some w0"
    by (cases fo; cases mo) (simp_all add: wav_open_def)
  with assms have "wav_open (Some fl) (Some w0) = Some (Some h)" by simp
  from wav_open_Some [OF this] show ?thesis
    by (auto simp add: valid_format_def wav_count_fields)
qed

lemma wav_read_format: "same_format w (snd (snd (wav_read w d n)))"
  by (simp add: wav_read_def same_format_def Let_def split: prod.splits)

lemma wav_stream_seek_format: "same_format w (snd (wav_stream_seek w t))"
  by (simp add: wav_stream_seek_def same_format_def Let_def split: prod.splits)

lemma wav_read_keeps:
  assumes "wav_read w d n = (k, d', w')"
  shows "bits w' = bits w \<and> channels w' = channels w"
  using wav_read_format [of w d n] assms by (simp add: same_format_def)

lemma wav_stream_update_format: "same_format w (snd (snd (wav_stream_update od w d n)))"
  by (auto simp add: wav_stream_update_def same_format_def Let_def split: prod.splits
      dest: wav_read_keeps)

lemma wav_chunks_bad_format:
  assumes "fbytes (f w) = pre @ fmt_bytes len0 pcm ch rate six bts @ post"
    and "fpos (f w) = length pre" and "length six = 6"
    and "(ch \<noteq> 1 \<and> ch \<noteq> 2) \<or> (bts \<noteq> 8 \<and> bts \<noteq> 16)"
  shows "wav_chunks w = Some None"
proof -
  have "wav_chunk w = Chunk_error"
    using wav_chunk_fmt_at [OF assms(1-3)] assms(4) by auto
  then show ?thesis by (rule wav_chunks_step)
qed

lemma wav_open_bad_format:
  assumes "fbytes fl = RIFF_tag @ sz @ WAVE_tag @ concat (map chunk_bytes cs)
             @ fmt_bytes len0 pcm ch rate six bts @ rest"
    and "fpos fl = 0" and "length sz = 4" and "length six = 6"
    and "\<forall>c\<in>set cs. skipped c"
    and "(ch \<noteq> 1 \<and> ch \<noteq> 2) \<or> (bts \<noteq> 8 \<and> bts \<noteq> 16)"
  shows "wav_open (Some fl) (Some w0) = Some None"
proof -
  let ?L = "length (concat (map chunk_bytes cs))"
  let ?s = "w0\<lparr>freq := 22050, bits := 8, channels := 1, f := fl\<lparr>fpos := 12\<rparr>\<rparr>"
  let ?s1 = "w0\<lparr>freq := 22050, bits := 8, channels := 1, f := fl\<lparr>fpos := 12 + ?L\<rparr>\<rparr>"
  have b: "fbytes (f ?s) = (RIFF_tag @ sz @ WAVE_tag) @ concat (map chunk_bytes cs)
             @ (fmt_bytes len0 pcm ch rate six bts @ rest)"
    using assms(1) by simp
  have l: "length (RIFF_tag @ sz @ WAVE_tag) = 12"
    using assms(3) by simp
  have "wav_chunks ?s = wav_chunks ?s1"
    using wav_chunks_skip_all [OF assms(5) b] l by simp
  moreover have "wav_chunks ?s1 = Some None"
  proof -
    have "fbytes (f ?s1) = (RIFF_tag @ sz @ WAVE_tag @ concat (map chunk_bytes cs))
            @ fmt_bytes len0 pcm ch rate six bts @ rest"
      using assms(1) by simp
    from wav_chunks_bad_format [OF this _ assms(4) assms(6)] l show ?thesis by simp
  qed
  ultimately have "wav_chunks ?s = Some None" by simp
  moreover have "fbytes fl = RIFF_tag @ sz @ WAVE_tag
      @ (concat (map chunk_bytes cs) @ fmt_bytes len0 pcm ch rate six bts @ rest)"
    using assms(1) by simp
  ultimately show ?thesis
    using riff_prefix [OF _ assms(2,3)] by simp
qed

text \<open>
  C8. A handle that \<open>wav_open\<close> returns has a bit depth of 8 or 16 and one or two
  channels. Reading, seeking, rewinding, setting the loop and the feeder's update leave
  the bit depth and the channel count as they are. When the chunk loop stands at a format
  chunk that declares another channel count or another bit depth, it leaves through the
  error exit; and a container whose first format chunk, after any chunks that are passed
  over, declares such a value does not open.
\<close>

theorem wav_format_invariant:
  "(wav_open fo mo = Some (Some h) \<longrightarrow> valid_format h)
   \<and> same_format w (snd (snd (wav_read w d n)))
   \<and> same_format w (snd (wav_stream_seek w t))
   \<and> same_format w (snd (wav_stream_rewind w))
   \<and> same_format w (snd (wav_stream_set_loop w a b))
   \<and> same_format w (snd (snd (wav_stream_update od w d n)))
   \<and> (fbytes (f w1) = pre @ fmt_bytes len0 pcm ch rate six bts @ post
        \<and> fpos (f w1) = length pre \<and> length six = 6
        \<and> ((ch \<noteq> 1 \<and> ch \<noteq> 2) \<or> (bts \<noteq> 8 \<and> bts \<noteq> 16))
      \<longrightarrow> wav_chunks w1 = Some None)
   \<and> (fbytes fl = RIFF_tag @ sz @ WAVE_tag @ concat (map chunk_bytes cs)
                     @ fmt_bytes len0 pcm ch rate six bts @ rest
        \<and> fpos fl = 0 \<and> length sz = 4 \<and> length six = 6 \<and> (\<forall>c\<in>set cs. skipped c)
        \<and> ((ch \<noteq> 1 \<and> ch \<noteq> 2) \<or> (bts \<noteq> 8 \<and> bts \<noteq> 16))
      \<longrightarrow> wav_open (Some fl) (Some w0) = Some None)"
  using wav_open_valid [of fo mo h] wav_read_format [of w d n] wav_stream_seek_format [of w]
    wav_stream_update_format [of w od d n]
    wav_chunks_bad_format [of w1 pre len0 pcm ch rate six bts post]
    wav_open_bad_format [of fl sz cs len0 pcm ch rate six bts rest w0]
  by (simp add: wav_stream_rewind_def wav_stream_set_loop_def same_format_def)

theorem wav_format_invariant_witness:
  "valid_format (fresh_block\<lparr>f := \<lparr>fbytes = stereo16_nine, fpos = 44\<rparr>, dpos := 44,
          freq := 44100, bits := 16, channels := 2, samples := 2\<rparr>)
   \<and> same_format fresh_block (snd (wav_stream_seek fresh_block 0))
   \<and> wav_open (Some \<lparr>fbytes = three_channels, fpos = 0\<rparr>) (Some fresh_block) = Some None"
proof -
  have b: "fbytes \<lparr>fbytes = three_channels, fpos = 0\<rparr>
    = RIFF_tag @ [36, 0, 0, 0] @ WAVE_tag @ concat (map chunk_bytes [])
      @ fmt_bytes 16 1 3 44100 [0x30, 0x13, 0x08, 0, 6, 0] 16 @ (data_tag @ le32 0)"
    by (simp add: three_channels_def)
  note t = wav_format_invariant [where fo = "Some \<lparr>fbytes = stereo16_nine, fpos = 0\<rparr>"
      and mo = "Some fresh_block"
      and h = "fresh_block\<lparr>f := \<lparr>fbytes = stereo16_nine, fpos = 44\<rparr>, dpos := 44,
          freq := 44100, bits := 16, channels := 2, samples := 2\<rparr>"
      and w = fresh_block and t = 0
      and fl = "\<lparr>fbytes = three_channels, fpos = 0\<rparr>" and sz = "[36, 0, 0, 0]" and cs = "[]"
      and ?len0.0 = 16 and pcm = 1 and ch = 3 and rate = 44100
      and six = "[0x30, 0x13, 0x08, 0, 6, 0]" and bts = 16 and rest = "data_tag @ le32 0"
      and ?w0.0 = fresh_block]
  from t stereo16_nine_open b show ?thesis by simp
qed

section \<open>A stream that ends in the header\<close>

text \<open>
  A handle is returned only when the loop has read a whole data tag from the stream: an
  end of the stream anywhere before that makes \<open>wav_open\<close> fail or, with chunk lengths
  that move the cursor back, run on.
\<close>

lemma wav_open_reaches_data:
  assumes "wav_open (Some fl) (Some w0) = Some (Some h)"
  shows "\<exists>p. 4 \<le> p \<and> p \<le> length (fbytes fl)
           \<and> take 4 (drop (p - 4) (fbytes fl)) = data_tag"
proof -
  from wav_open_Some [OF assms] obtain w :: WAVFILE where p: "4 \<le> fpos (f w)"
    and t: "take 4 (drop (fpos (f w) - 4) (fbytes fl)) = data_tag"
    by blast
  from t have "length (take 4 (drop (fpos (f w) - 4) (fbytes fl))) = 4" by simp
  then have "fpos (f w) \<le> length (fbytes fl)" using p by simp
  with p t show ?thesis by (intro exI [of _ "fpos (f w)"]) simp
qed

text \<open>
  C5. The stream \<open>"RIFF"\<close>, four bytes, \<open>"WAVE"\<close>, \<open>"data"\<close> ends where the four bytes
  of the data chunk's byte count are expected. \<open>wav_open\<close> does not fail on it: the
  result of \<open>read32\<close> is not looked at, and the handle is returned with the frame count
  that the block held before, which nothing has initialised.
\<close>

theorem wav_open_truncated_count:
  "wav_open (Some \<lparr>fbytes = data_tag_only, fpos = 0\<rparr>) (Some w0)
     = Some (Some (w0\<lparr>f := \<lparr>fbytes = data_tag_only, fpos = 16\<rparr>, dpos := 16,
                      freq := 22050, bits := 8, channels := 1\<rparr>))"
proof -
  let ?s2 = "w0\<lparr>freq := 22050, bits := 8, channels := 1,
                f := \<lparr>fbytes = data_tag_only, fpos = 16\<rparr>\<rparr>"
  have b: "fbytes \<lparr>fbytes = data_tag_only, fpos = 0\<rparr>
             = RIFF_tag @ [8, 0, 0, 0] @ WAVE_tag @ concat (map chunk_bytes []) @ data_tag @ []"
    by (simp add: data_tag_only_def)
  have "wav_chunk (w0\<lparr>freq := 22050, bits := 8, channels := 1,
                f := \<lparr>fbytes = data_tag_only, fpos = 12\<rparr>\<rparr>) = Chunk_data ?s2"
    using wav_chunk_found [of "w0\<lparr>freq := 22050, bits := 8, channels := 1,
                f := \<lparr>fbytes = data_tag_only, fpos = 12\<rparr>\<rparr>" "RIFF_tag @ [8, 0, 0, 0] @ WAVE_tag" "[]"]
    by (simp add: data_tag_only_def)
  then have "wav_open (Some \<lparr>fbytes = data_tag_only, fpos = 0\<rparr>) (Some w0)
     = Some (Some (wav_count ?s2))"
    using riff_prefix [of "\<lparr>fbytes = data_tag_only, fpos = 0\<rparr>" "[8, 0, 0, 0]" "data_tag" w0]
    by (simp add: wav_chunks_step data_tag_only_def)
  moreover have "length data_tag_only = 16"
    by (simp add: data_tag_only_def)
  ultimately show ?thesis
    by (simp add: wav_count_def read32_eof al_ftell_def)
qed

theorem wav_open_truncated_count_witness:
  "wav_open (Some \<lparr>fbytes = data_tag_only, fpos = 0\<rparr>) (Some fresh_block)
     = Some (Some (fresh_block\<lparr>f := \<lparr>fbytes = data_tag_only, fpos = 16\<rparr>, dpos := 16,
                      freq := 22050, bits := 8, channels := 1\<rparr>))
   \<and> samples (fresh_block\<lparr>f := \<lparr>fbytes = data_tag_only, fpos = 16\<rparr>, dpos := 16,
                      freq := 22050, bits := 8, channels := 1\<rparr>) = 77"
  using wav_open_truncated_count [of fresh_block] by (simp add: fresh_block_def)

section \<open>Seeking into a frame\<close>

text \<open>
  C2. On a stereo, 16-bit, 44100 Hz handle a seek to 1/16 s has the raw offset 11025.
  \<open>wav_stream_seek\<close> adds \<open>11025 mod 4 = 1\<close> and seeks to the data position plus 11026,
  which is not a multiple of the frame size 4: the next frame boundary is 11028.
\<close>

theorem wav_stream_seek_mid_frame:
  "wav_stream_seek
     \<lparr>f = \<lparr>fbytes = bs, fpos = 44\<rparr>, dpos = 44, freq = 44100, bits = 16, channels = 2,
      samples = n, loop_start = 0, loop_end = 10\<rparr> (1 / 16)
   = (True,
      \<lparr>f = \<lparr>fbytes = bs, fpos = 44 + 11026\<rparr>, dpos = 44, freq = 44100, bits = 16,
       channels = 2, samples = n, loop_start = 0, loop_end = 10\<rparr>)
   \<and> (11026 :: nat) mod 4 = 2"
  by (simp add: wav_stream_seek_def bytes_per_frame_def c_div_def int_of_short_def
      signed_divide_int_def ulong_of_double_def double_of_int_def size_t_of_def
      al_fseek_set_def)

text \<open>
  A seek to a negative time on the same handle: the offset wraps to a position beyond
  \<open>2 ^ 63\<close>, the absolute seek fails, and \<open>wav_stream_seek\<close> returns false with the
  cursor where it was.
\<close>

lemma wav_stream_seek_negative:
  "wav_stream_seek
     \<lparr>f = \<lparr>fbytes = bs, fpos = 44\<rparr>, dpos = 44, freq = 44100, bits = 16, channels = 2,
      samples = n, loop_start = 0, loop_end = 10\<rparr> (- 1)
   = (False,
      \<lparr>f = \<lparr>fbytes = bs, fpos = 44\<rparr>, dpos = 44, freq = 44100, bits = 16,
       channels = 2, samples = n, loop_start = 0, loop_end = 10\<rparr>)"
  by (simp add: wav_stream_seek_def bytes_per_frame_def c_div_def int_of_short_def
      signed_divide_int_def ulong_of_double_def double_of_int_def size_t_of_def
      al_fseek_set_def)

section \<open>Writing signed 8-bit samples\<close>

text \<open>
  C4. For a signed 8-bit sample of one stereo frame with the values 1 and 2,
  \<open>al_save_wav_stream\<close> announces two bytes of data in the header and writes one, 0x81:
  its loop runs over the frames, not over the frames times the channels.
\<close>

theorem al_save_wav_stream_int8_stereo:
  "al_save_wav_stream s cv \<lparr>fbytes = [], fpos = 0\<rparr>
     \<lparr>depth = ALLEGRO_AUDIO_DEPTH_INT8, chan_conf = 0x20, frequency = 44100,
      len = push_bit s 1, buffer = [1, 2]\<rparr>
   = (True, \<lparr>fbytes = wav_header 2 8 44100 2 @ [0x81], fpos = 45\<rparr>)"
proof -
  let ?spl = "\<lparr>depth = ALLEGRO_AUDIO_DEPTH_INT8, chan_conf = 0x20, frequency = 44100,
      len = push_bit s 1, buffer = [1, 2 :: byte]\<rparr>"
  have c: "wav_channels ?spl = 2" by (simp add: wav_channels_def)
  have b: "wav_bits ?spl = 8" by (simp add: wav_bits_def)
  have n: "drop_bit s (len ?spl) = 1" by (simp add: drop_bit_eq_div)
  have "al_save_wav_stream s cv \<lparr>fbytes = [], fpos = 0\<rparr> ?spl
    = (True, al_fputc (al_fwrite \<lparr>fbytes = [], fpos = 0\<rparr> (wav_header 2 8 44100 2)) 0x81)"
    unfolding al_save_wav_stream_def Let_def wav_header_written c b n
    by simp
  then show ?thesis
    by (simp add: al_fputc_def al_fwrite_append) (simp add: al_fwrite_def)
qed

section \<open>Reading samples\<close>

lemma length_view16: "length (view16 xs) = length xs div 2"
  by (induction xs rule: view16.induct) simp_all

lemma mem16_view16: "mem16 (view16 xs) = take (2 * (length xs div 2)) xs"
  by (induction xs rule: view16.induct) (simp_all add: mem16_def bytes_le16)

lemma view16_mem16: "view16 (mem16 ys) = ys"
  by (induction ys) (simp_all add: mem16_def le16_def le16_bytes)

lemma view16_short: "length xs < 2 \<Longrightarrow> view16 xs = []"
  by (cases xs rule: view16.cases) simp_all

lemma wav_read16_eq:
  "wav_read16 k fl =
     (view16 (take (2 * k) (drop (fpos fl) (fbytes fl))),
      fl\<lparr>fpos := (if 2 * k \<le> length (fbytes fl) - fpos fl then fpos fl + 2 * k
                  else max (fpos fl) (length (fbytes fl)))\<rparr>)"
proof (induction k arbitrary: fl)
  case 0
  show ?case by simp
next
  case (Suc k)
  show ?case
  proof (cases "fpos fl + 2 \<le> length (fbytes fl)")
    case True
    then have d: "drop (fpos fl) (fbytes fl)
        = fbytes fl ! fpos fl # fbytes fl ! Suc (fpos fl) # drop (fpos fl + 2) (fbytes fl)"
      by (simp add: Cons_nth_drop_Suc)
    have m: "max (fpos fl + 2) (length (fbytes fl)) = max (fpos fl) (length (fbytes fl))"
      using True by simp
    have c: "(2 * k \<le> length (fbytes fl) - (fpos fl + 2))
               = (2 * Suc k \<le> length (fbytes fl) - fpos fl)"
      using True by auto
    show ?thesis
      using True d m c
      by (simp add: read16_ok Suc.IH take2_drop word16_le_def add.commute)
  next
    case False
    then have "length (take (2 * Suc k) (drop (fpos fl) (fbytes fl))) < 2" by simp
    then have "view16 (take (2 * Suc k) (drop (fpos fl) (fbytes fl))) = []"
      by (rule view16_short)
    with False show ?thesis
      by (simp add: read16_eof)
  qed
qed

lemma size_t_channels:
  assumes "channels w = 1 \<or> channels w = 2"
  shows "size_t_of (sint (channels w)) = unat (channels w)" and "0 < unat (channels w)"
  using assms by (auto simp add: size_t_of_def)

lemma wav_read_8:
  assumes "bits w = 8"
  shows "wav_read w d n =
    (let c = size_t_of (sint (channels w));
         got = take ((c * n) mod 2 ^ 64) (drop (fpos (f w)) (fbytes (f w)))
     in (length got div c, store d got, w\<lparr>f := (f w)\<lparr>fpos := fpos (f w) + length got\<rparr>\<rparr>))"
  using assms by (simp add: wav_read_def al_fread_def Let_def)

lemma wav_read_16:
  assumes "bits w \<noteq> 8"
  shows "wav_read w d n =
    (let c = size_t_of (sint (channels w));
         k = (c * n) mod 2 ^ 64;
         xs = view16 (take (2 * k) (drop (fpos (f w)) (fbytes (f w))))
     in (length xs div c, store d (mem16 xs),
         w\<lparr>f := (f w)\<lparr>fpos := (if 2 * k \<le> length (fbytes (f w)) - fpos (f w)
                                  then fpos (f w) + 2 * k
                                  else max (fpos (f w)) (length (fbytes (f w))))\<rparr>\<rparr>))"
  using assms by (simp add: wav_read_def wav_read16_eq Let_def)

lemma wav_read_at_end:
  assumes "length (fbytes (f w)) \<le> fpos (f w)"
  shows "fst (wav_read w d n) = 0"
  using assms by (cases "bits w = 8") (simp_all add: wav_read_8 wav_read_16 Let_def)

lemma wav_read_short_8:
  assumes "bits w = 8" and "channels w = 1 \<or> channels w = 2"
    and "frames_left w < n" and "size_t_of (sint (channels w)) * n < 2 ^ 64"
  shows "fst (wav_read w d n) = frames_left w"
    and "length (fbytes (f (snd (snd (wav_read w d n))))) \<le> fpos (f (snd (snd (wav_read w d n))))"
proof -
  let ?c = "unat (channels w)"
  let ?R = "length (fbytes (f w)) - fpos (f w)"
  have c: "size_t_of (sint (channels w)) = ?c" "0 < ?c"
    using size_t_channels [OF assms(2)] by simp_all
  have fb: "frame_bytes w = ?c" using assms(1) by (simp add: frame_bytes_def)
  have "?R div ?c < n" using assms(3) fb by (simp add: frames_left_def)
  then have "?R < n * ?c" using c(2) by (simp add: div_less_iff_less_mult)
  then have m: "min ?R (?c * n) = ?R" by (simp add: mult.commute)
  have nw: "(?c * n) mod 2 ^ 64 = ?c * n" using assms(4) c(1) by simp
  show "fst (wav_read w d n) = frames_left w"
    using m nw c(1) fb by (simp add: wav_read_8 [OF assms(1)] Let_def frames_left_def)
  show "length (fbytes (f (snd (snd (wav_read w d n))))) \<le> fpos (f (snd (snd (wav_read w d n))))"
    using m nw c(1) by (simp add: wav_read_8 [OF assms(1)] Let_def)
qed

lemma wav_read_short_16:
  assumes "bits w = 16" and "channels w = 1 \<or> channels w = 2"
    and "frames_left w < n" and "size_t_of (sint (channels w)) * n < 2 ^ 64"
  shows "fst (wav_read w d n) = frames_left w"
    and "length (fbytes (f (snd (snd (wav_read w d n))))) \<le> fpos (f (snd (snd (wav_read w d n))))"
proof -
  let ?c = "unat (channels w)"
  let ?R = "length (fbytes (f w)) - fpos (f w)"
  have b: "bits w \<noteq> 8" using assms(1) by simp
  have c: "size_t_of (sint (channels w)) = ?c" "0 < ?c"
    using size_t_channels [OF assms(2)] by simp_all
  have fb: "frame_bytes w = 2 * ?c" using assms(1) by (simp add: frame_bytes_def)
  have "?R div (2 * ?c) < n" using assms(3) fb by (simp add: frames_left_def)
  then have lt: "?R < n * (2 * ?c)" using c(2) by (simp add: div_less_iff_less_mult)
  then have m: "min ?R (2 * (?c * n)) = ?R" by (simp add: mult.commute mult.left_commute)
  have nw: "(?c * n) mod 2 ^ 64 = ?c * n" using assms(4) c(1) by simp
  have nle: "\<not> 2 * (?c * n) \<le> ?R" using lt by (simp add: mult.commute mult.left_commute)
  have dv: "?R div 2 div ?c = ?R div (2 * ?c)" by (simp add: div_mult2_eq)
  show "fst (wav_read w d n) = frames_left w"
    using m nw c(1) fb dv
    by (simp add: wav_read_16 [OF b] Let_def frames_left_def length_view16)
  show "length (fbytes (f (snd (snd (wav_read w d n))))) \<le> fpos (f (snd (snd (wav_read w d n))))"
    using nle nw c(1) by (simp add: wav_read_16 [OF b] Let_def)
qed

text \<open>
  C7. On a handle of valid format with \<open>r\<close> whole frames between the cursor and the end
  of the stream, \<open>wav_read\<close> asked for \<open>n > r\<close> frames returns \<open>r\<close>, and the next call,
  whatever it asks for, returns 0. The request is one whose sample count
  \<open>channels * n\<close> does not wrap \<open>size_t\<close>, as for every buffer that exists. \<open>wav_read\<close> has
  no error result.
\<close>

theorem wav_read_short:
  assumes "valid_format w" and "frames_left w < n"
    and "size_t_of (sint (channels w)) * n < 2 ^ 64"
  shows "fst (wav_read w d n) = frames_left w
         \<and> fst (wav_read (snd (snd (wav_read w d n))) d' m) = 0"
proof -
  from assms(1) have ch: "channels w = 1 \<or> channels w = 2"
    and "bits w = 8 \<or> bits w = 16"
    by (simp_all add: valid_format_def)
  then have "fst (wav_read w d n) = frames_left w
    \<and> length (fbytes (f (snd (snd (wav_read w d n))))) \<le> fpos (f (snd (snd (wav_read w d n))))"
    using wav_read_short_8 [OF _ ch assms(2,3)] wav_read_short_16 [OF _ ch assms(2,3)]
    by blast
  then show ?thesis by (simp add: wav_read_at_end)
qed

theorem wav_read_short_witness:
  "valid_format (fresh_block\<lparr>f := \<lparr>fbytes = mono8_list, fpos = 30\<rparr>, bits := 8, channels := 1\<rparr>)
   \<and> frames_left (fresh_block\<lparr>f := \<lparr>fbytes = mono8_list, fpos = 30\<rparr>, bits := 8,
         channels := 1\<rparr>) = 4
   \<and> fst (wav_read (fresh_block\<lparr>f := \<lparr>fbytes = mono8_list, fpos = 30\<rparr>, bits := 8,
         channels := 1\<rparr>) (replicate 10 0) 10) = 4
   \<and> fst (wav_read (snd (snd (wav_read (fresh_block\<lparr>f := \<lparr>fbytes = mono8_list, fpos = 30\<rparr>,
         bits := 8, channels := 1\<rparr>) (replicate 10 0) 10))) (replicate 10 0) 10) = 0"
proof -
  let ?H = "fresh_block\<lparr>f := \<lparr>fbytes = mono8_list, fpos = 30\<rparr>, bits := 8, channels := 1\<rparr>"
  have v: "valid_format ?H" by (simp add: valid_format_def)
  have r: "frames_left ?H = 4"
    by (simp add: frames_left_def frame_bytes_def mono8_list_def chunk_bytes_def)
  have lt: "frames_left ?H < 10" using r by simp
  have nw: "size_t_of (sint (channels ?H)) * 10 < 2 ^ 64" by (simp add: size_t_of_def)
  from wav_read_short [OF v lt nw, of "replicate 10 0" "replicate 10 0" 10] v r
  show ?thesis by simp
qed

section \<open>The buffer of al_load_wav\<close>

lemma size_t_of_small:
  assumes "size_t_of x < 2 ^ 63" and "- (2 ^ 31) \<le> x" and "x < 2 ^ 31"
  shows "0 \<le> x" and "size_t_of x = nat x"
proof -
  show "0 \<le> x"
  proof (rule ccontr)
    assume "\<not> 0 \<le> x"
    then have "(x + 2 ^ 64) mod 2 ^ 64 = x + 2 ^ 64"
      using assms(2) by (intro mod_pos_pos_trivial) simp_all
    then have "x mod 2 ^ 64 = x + 2 ^ 64" by simp
    with assms show False by (simp add: size_t_of_def)
  qed
  then show "size_t_of x = nat x"
    using assms(3) by (simp add: size_t_of_def mod_pos_pos_trivial)
qed

lemma sdiv2_bounds:
  fixes a :: int
  assumes "- (2 * k) \<le> a" and "a < 2 * k"
  shows "- k \<le> a sdiv 2" and "a sdiv 2 < k"
  using assms by (auto simp add: signed_divide_int_def sgn_if)

lemma sint_mult_small:
  fixes s :: "32 word"
  assumes "- (2 ^ 31) \<le> c * sint s" and "c * sint s < 2 ^ 31"
    and "sint (word_of_int c :: 32 word) = c"
  shows "sint (word_of_int c * s) = c * sint s"
  using assms by (simp add: sint_word_mult signed_take_bit_int_eq_self)

lemma c_div2_bounds:
  "- (2 ^ 30) \<le> sint (c_div a 2)" "sint (c_div a 2) < 2 ^ 30"
  "- (2 ^ 29) \<le> sint (c_div (c_div a 2) 2)" "sint (c_div (c_div a 2) 2) < 2 ^ 29"
proof -
  have a: "- (2 * 2 ^ 30) \<le> sint a" "sint a < 2 * 2 ^ 30"
    using sint_ge [of a] sint_lt [of a] by simp_all
  from sdiv2_bounds [OF a] show b: "- (2 ^ 30) \<le> sint (c_div a 2)" "sint (c_div a 2) < 2 ^ 30"
    by (simp_all add: sint_c_div2)
  then have "- (2 * 2 ^ 29) \<le> sint (c_div a 2)" "sint (c_div a 2) < 2 * 2 ^ 29"
    by simp_all
  from sdiv2_bounds [OF this]
  show "- (2 ^ 29) \<le> sint (c_div (c_div a 2) 2)" "sint (c_div (c_div a 2) 2) < 2 ^ 29"
    by (simp_all add: sint_c_div2)
qed

lemma wav_count_samples_shape:
  "\<exists>x. samples (wav_count w) =
     (let n1 = (if channels w = 2 then c_div (x + 1) 2 else x)
      in if bits w = 16 then c_div n1 2 else n1)"
proof -
  obtain r n0 f1 where "read32 (f w) (samples w) = (r, n0, f1)"
    by (cases "read32 (f w) (samples w)")
  then show ?thesis
    by (intro exI [of _ n0]) (simp add: wav_count_def Let_def)
qed

lemma bytes_per_frame_valid:
  assumes "valid_format w"
  shows "bytes_per_frame w = word_of_int (int (frame_bytes w))"
    and "frame_bytes w = 1 \<or> frame_bytes w = 2 \<or> frame_bytes w = 4"
  using assms
  by (auto simp add: valid_format_def bytes_per_frame_def frame_bytes_def c_div_def
      int_of_short_def signed_divide_int_def)

lemma wav_count_bytes:
  assumes "valid_format w"
  shows "sint (bytes_per_frame (wav_count w) * samples (wav_count w))
         = int (frame_bytes w) * sint (samples (wav_count w))"
proof -
  have bf: "bytes_per_frame (wav_count w) = bytes_per_frame w"
    by (simp add: bytes_per_frame_def wav_count_fields)
  obtain x where s: "samples (wav_count w) =
     (let n1 = (if channels w = 2 then c_div (x + 1) 2 else x)
      in if bits w = 16 then c_div n1 2 else n1)"
    using wav_count_samples_shape [of w] by blast
  let ?s = "samples (wav_count w)"
  consider (a) "bits w = 8" "channels w = 1" | (b) "bits w = 8" "channels w = 2"
    | (c) "bits w = 16" "channels w = 1" | (d) "bits w = 16" "channels w = 2"
    using assms by (auto simp add: valid_format_def)
  then show ?thesis
  proof cases
    case a
    then have "frame_bytes w = 1" by (simp add: frame_bytes_def)
    then show ?thesis
      using bytes_per_frame_valid(1) [OF assms] by (simp add: bf)
  next
    case b
    then have fb: "frame_bytes w = 2" by (simp add: frame_bytes_def)
    from b s have "?s = c_div (x + 1) 2" by simp
    then have "- (2 ^ 31) \<le> 2 * sint ?s" "2 * sint ?s < 2 ^ 31"
      using c_div2_bounds(1,2) [of "x + 1"] by simp_all
    from sint_mult_small [OF this] show ?thesis
      using bytes_per_frame_valid(1) [OF assms] fb by (simp add: bf)
  next
    case c
    then have fb: "frame_bytes w = 2" by (simp add: frame_bytes_def)
    from c s have "?s = c_div x 2" by simp
    then have "- (2 ^ 31) \<le> 2 * sint ?s" "2 * sint ?s < 2 ^ 31"
      using c_div2_bounds(1,2) [of x] by simp_all
    from sint_mult_small [OF this] show ?thesis
      using bytes_per_frame_valid(1) [OF assms] fb by (simp add: bf)
  next
    case d
    then have fb: "frame_bytes w = 4" by (simp add: frame_bytes_def)
    from d s have "?s = c_div (c_div (x + 1) 2) 2" by simp
    then have "- (2 ^ 31) \<le> 4 * sint ?s" "4 * sint ?s < 2 ^ 31"
      using c_div2_bounds(3,4) [of "x + 1"] by simp_all
    from sint_mult_small [OF this] show ?thesis
      using bytes_per_frame_valid(1) [OF assms] fb by (simp add: bf)
  qed
qed

lemma wav_open_counted:
  assumes "wav_open fo mo = Some (Some h)"
  shows "\<exists>w. h = wav_count w \<and> valid_format w"
proof -
  from assms obtain fl w0 where "fo = Some fl" "mo = Some w0"
    by (cases fo; cases mo) (simp_all add: wav_open_def)
  with assms have "wav_open (Some fl) (Some w0) = Some (Some h)" by simp
  from wav_open_Some [OF this] show ?thesis
    by (auto simp add: valid_format_def)
qed

lemma store_zero:
  assumes "length xs \<le> n"
  shows "store (replicate n 0) xs = xs @ replicate (n - length xs) 0"
  by (simp add: store_def)

lemma take_min_length: "take (min n (length xs)) xs = take n xs"
  by (simp add: min_def)

lemma round_down_le:
  fixes n r :: nat
  shows "min n r div 2 * 2 \<le> n" and "min n r div 2 * 2 \<le> r"
proof -
  have "min n r div 2 * 2 \<le> min n r" by (rule div_times_less_eq_dividend)
  then show "min n r div 2 * 2 \<le> n" and "min n r div 2 * 2 \<le> r"
    by (simp_all only: min.bounded_iff)
qed

lemma wav_read_buffer_8:
  assumes "bits w = 8" and "channels w = 1 \<or> channels w = 2" and "cnt < 2 ^ 31"
  shows "fst (snd (wav_read w (replicate (frame_bytes w * cnt) 0) cnt)) =
    (let size = frame_bytes w * cnt;
         rest = drop (fpos (f w)) (fbytes (f w));
         k = min size (length rest)
     in take k rest @ replicate (size - k) 0)"
proof -
  let ?c = "unat (channels w)"
  have c: "size_t_of (sint (channels w)) = ?c" "?c = 1 \<or> ?c = 2"
    using assms(2) by (auto simp add: size_t_of_def)
  have fb: "frame_bytes w = ?c" using assms(1) by (simp add: frame_bytes_def)
  have "?c * cnt < 2 ^ 64" using c(2) assms(3) by auto
  then have nw: "(?c * cnt) mod 2 ^ 64 = ?c * cnt" by simp
  show ?thesis
    using nw c(1) fb
    by (simp add: wav_read_8 [OF assms(1)] Let_def store_zero take_min_length min.commute)
qed

lemma wav_read_buffer_16:
  assumes "bits w = 16" and "channels w = 1 \<or> channels w = 2" and "cnt < 2 ^ 31"
  shows "fst (snd (wav_read w (replicate (frame_bytes w * cnt) 0) cnt)) =
    (let size = frame_bytes w * cnt;
         rest = drop (fpos (f w)) (fbytes (f w));
         k = min size (length rest) div 2 * 2
     in take k rest @ replicate (size - k) 0)"
proof -
  let ?c = "unat (channels w)"
  let ?rest = "drop (fpos (f w)) (fbytes (f w))"
  let ?n = "2 * (?c * cnt)"
  let ?k = "min ?n (length ?rest) div 2 * 2"
  have b: "bits w \<noteq> 8" using assms(1) by simp
  have c: "size_t_of (sint (channels w)) = ?c" "?c = 1 \<or> ?c = 2"
    using assms(2) by (auto simp add: size_t_of_def)
  have fb: "frame_bytes w = 2 * ?c" using assms(1) by (simp add: frame_bytes_def)
  have "?c * cnt < 2 ^ 64" using c(2) assms(3) by auto
  then have nw: "(?c * cnt) mod 2 ^ 64 = ?c * cnt" by simp
  have k: "?k \<le> ?n" "?k \<le> length ?rest"
    by (rule round_down_le)+
  have "mem16 (view16 (take ?n ?rest)) = take (2 * (length (take ?n ?rest) div 2)) (take ?n ?rest)"
    by (rule mem16_view16)
  also have "\<dots> = take ?k ?rest"
    using k by (simp add: min.absorb1 mult.commute min.commute)
  finally have m: "mem16 (view16 (take ?n ?rest)) = take ?k ?rest" .
  have l: "length (take ?k ?rest) = ?k" using k(2) by simp
  have "store (replicate ?n 0) (take ?k ?rest) = take ?k ?rest @ replicate (?n - ?k) 0"
    using store_zero [of "take ?k ?rest" ?n] k(1) l by simp
  then show ?thesis
    using nw c(1) fb m
    by (simp add: wav_read_16 [OF b] Let_def flip: mult.assoc)
qed

text \<open>
  C10. When \<open>al_load_wav\<close> returns a sample, the file has opened with a handle whose
  frame count is not negative, and the sample's buffer, of frame size times frame count
  bytes, is the sample bytes decoded from the data position (as many whole samples as the
  stream and the buffer hold) followed by zero bytes up to its end. \<open>malloc\<close> is taken to
  return a block of the size asked for, and none of \<open>2 ^ 63\<close> bytes or more.
\<close>

theorem al_load_wav_zero_fill:
  assumes "al_load_wav create heap fo mo = Some (Some spl)"
    and "\<forall>n d. heap n = Some d \<longrightarrow> length d = n \<and> n < 2 ^ 63"
  shows "\<exists>h. wav_open fo mo = Some (Some h) \<and> 0 \<le> sint (samples h)
           \<and> (let size = frame_bytes h * nat (sint (samples h));
                   rest = drop (dpos h) (fbytes (f h));
                   bps = unat (bits h) div 8;
                   k = min size (length rest) div bps * bps
               in buffer spl = take k rest @ replicate (size - k) 0)"
proof -
  from assms(1) obtain h where o: "wav_open fo mo = Some (Some h)"
    by (auto simp add: al_load_wav_def split: option.splits)
  let ?n = "size_t_of (sint (bytes_per_frame h * samples h))"
  let ?cnt = "size_t_of (sint (samples h))"
  from assms(1) o obtain data where hp: "heap ?n = Some data"
    and b: "buffer spl = fst (snd (wav_read h (memset data 0 ?n) ?cnt))"
    by (auto simp add: al_load_wav_def Let_def split: option.splits prod.splits)
  from wav_open_counted [OF o] obtain w where w: "h = wav_count w" "valid_format w"
    by blast
  then have v: "valid_format h" and fp: "fpos (f h) = dpos h"
    by (simp_all add: valid_format_def wav_count_fields)
  have fbw: "frame_bytes h = frame_bytes w"
    using w(1) by (simp add: frame_bytes_def wav_count_fields)
  have sz: "sint (bytes_per_frame h * samples h) = int (frame_bytes h) * sint (samples h)"
    using wav_count_bytes [OF w(2)] w(1) fbw by simp
  from assms(2) hp have ld: "length data = ?n" and small: "?n < 2 ^ 63" by auto
  have rng: "- (2 ^ 31) \<le> sint (bytes_per_frame h * samples h)"
    "sint (bytes_per_frame h * samples h) < 2 ^ 31"
    using sint_ge [of "bytes_per_frame h * samples h"]
      sint_lt [of "bytes_per_frame h * samples h"] by simp_all
  from size_t_of_small [OF small rng]
  have nn: "0 \<le> int (frame_bytes h) * sint (samples h)"
    and n: "?n = nat (int (frame_bytes h) * sint (samples h))"
    using sz by simp_all
  have fpos: "0 < frame_bytes h"
    using bytes_per_frame_valid(2) [OF v] by auto
  with nn have s0: "0 \<le> sint (samples h)"
    by (simp add: zero_le_mult_iff)
  have s31: "nat (sint (samples h)) < 2 ^ 31"
    using sint_lt [of "samples h"] s0 by (simp add: nat_less_iff)
  have cnt: "?cnt = nat (sint (samples h))"
    using s0 sint_lt [of "samples h"] by (simp add: size_t_of_def mod_pos_pos_trivial)
  have n': "?n = frame_bytes h * nat (sint (samples h))"
    using n s0 by (simp add: nat_mult_distrib)
  have ms: "memset data 0 ?n = replicate (frame_bytes h * nat (sint (samples h))) 0"
    using ld n' by (simp add: memset_def)
  from v have ch: "channels h = 1 \<or> channels h = 2" and bt: "bits h = 8 \<or> bits h = 16"
    by (simp_all add: valid_format_def)
  from bt have "let size = frame_bytes h * nat (sint (samples h));
                 rest = drop (dpos h) (fbytes (f h));
                 bps = unat (bits h) div 8;
                 k = min size (length rest) div bps * bps
             in buffer spl = take k rest @ replicate (size - k) 0"
  proof
    assume b8: "bits h = 8"
    from wav_read_buffer_8 [OF b8 ch s31] b ms cnt fp b8 show ?thesis
      by (simp add: Let_def)
  next
    assume b16: "bits h = 16"
    from wav_read_buffer_16 [OF b16 ch s31] b ms cnt fp b16 show ?thesis
      by (simp add: Let_def)
  qed
  with o s0 show ?thesis by blast
qed

lemma stereo16_short_open:
  "wav_open (Some \<lparr>fbytes = stereo16_short, fpos = 0\<rparr>) (Some fresh_block)
     = Some (Some (fresh_block\<lparr>f := \<lparr>fbytes = stereo16_short, fpos = 44\<rparr>, dpos := 44,
          freq := 44100, bits := 16, channels := 2, samples := 2\<rparr>))"
  by code_simp

lemma stereo16_short_load:
  "al_load_wav plain_create filled_heap (Some \<lparr>fbytes = stereo16_short, fpos = 0\<rparr>)
     (Some fresh_block)
   = Some (Some \<lparr>depth = ALLEGRO_AUDIO_DEPTH_INT16, chan_conf = 32, frequency = 44100,
                  len = 2, buffer = [1, 2, 0, 0, 0, 0, 0, 0]\<rparr>)"
proof -
  let ?H = "fresh_block\<lparr>f := \<lparr>fbytes = stereo16_short, fpos = 44\<rparr>, dpos := 44,
          freq := 44100, bits := 16, channels := 2, samples := 2\<rparr>"
  have n: "size_t_of (sint (bytes_per_frame ?H * samples ?H)) = 8"
    by (simp add: bytes_per_frame_def c_div_def int_of_short_def signed_divide_int_def
        size_t_of_def)
  have c: "size_t_of (sint (samples ?H)) = 2"
    by (simp add: size_t_of_def)
  have d: "drop 44 stereo16_short = [1, 2, 3]"
    by (simp add: stereo16_short_def stereo16_nine_def)
  have l: "length stereo16_short = 47"
    by (simp add: stereo16_short_def stereo16_nine_def)
  have z: "[1, 2] @ drop 2 (replicate 8 (0 :: byte)) = [1, 2, 0, 0, 0, 0, 0, 0]"
    by (simp add: numeral_eq_Suc)
  have "wav_read ?H (replicate 8 0) 2
    = (0, [1, 2] @ drop 2 (replicate 8 0), ?H\<lparr>f := \<lparr>fbytes = stereo16_short, fpos = 47\<rparr>\<rparr>)"
    using d l
    by (simp add: wav_read_16 Let_def size_t_of_def mem16_def store_def le16_def)
  then have r: "wav_read ?H (replicate 8 0) 2
    = (0, [1, 2, 0, 0, 0, 0, 0, 0], ?H\<lparr>f := \<lparr>fbytes = stereo16_short, fpos = 47\<rparr>\<rparr>)"
    by (simp only: z)
  show ?thesis
    using n c r
    by (simp add: al_load_wav_def stereo16_short_open filled_heap_def plain_create_def
        memset_def Let_def c_div_def int_of_short_def signed_divide_int_def)
qed

theorem al_load_wav_zero_fill_witness:
  "al_load_wav plain_create filled_heap (Some \<lparr>fbytes = stereo16_short, fpos = 0\<rparr>)
     (Some fresh_block)
   = Some (Some \<lparr>depth = ALLEGRO_AUDIO_DEPTH_INT16, chan_conf = 32, frequency = 44100,
                  len = 2, buffer = [1, 2, 0, 0, 0, 0, 0, 0]\<rparr>)
   \<and> [1, 2, 0, 0, 0, 0, 0, 0] = take 2 (drop 44 stereo16_short) @ replicate (8 - 2) (0 :: byte)"
proof -
  let ?S = "\<lparr>depth = ALLEGRO_AUDIO_DEPTH_INT16, chan_conf = 32, frequency = 44100,
                  len = 2, buffer = [1, 2, 0, 0, 0, 0, 0, 0 :: byte]\<rparr>"
  let ?H = "fresh_block\<lparr>f := \<lparr>fbytes = stereo16_short, fpos = 44\<rparr>, dpos := 44,
          freq := 44100, bits := 16, channels := 2, samples := 2\<rparr>"
  have hp: "\<forall>n d. filled_heap n = Some d \<longrightarrow> length d = n \<and> n < 2 ^ 63"
    by (auto simp add: filled_heap_def split: if_splits)
  from al_load_wav_zero_fill [OF stereo16_short_load hp]
  obtain h where o: "wav_open (Some \<lparr>fbytes = stereo16_short, fpos = 0\<rparr>) (Some fresh_block)
      = Some (Some h)"
    and b: "let size = frame_bytes h * nat (sint (samples h));
                rest = drop (dpos h) (fbytes (f h));
                bps = unat (bits h) div 8;
                k = min size (length rest) div bps * bps
            in buffer ?S = take k rest @ replicate (size - k) 0"
    by blast
  from o have h: "h = ?H" by (simp add: stereo16_short_open)
  have l: "length stereo16_short = 47"
    by (simp add: stereo16_short_def stereo16_nine_def)
  from b have "buffer ?S = take 2 (drop 44 stereo16_short) @ replicate (8 - 2) 0"
    unfolding h by (simp add: Let_def frame_bytes_def l)
  with stereo16_short_load show ?thesis by simp
qed

section \<open>Writing and reading back\<close>

lemma wav_open_canonical:
  assumes "bs = RIFF_tag @ sz @ WAVE_tag @ fmt_bytes 16 1 ch rate six bts @ data_tag
                  @ le32 cnt @ dat"
    and "length sz = 4" and "length six = 6"
    and "ch = 1 \<or> ch = 2" and "bts = 8 \<or> bts = 16"
  shows "wav_open (Some \<lparr>fbytes = bs, fpos = 0\<rparr>) (Some w0) =
    Some (Some (w0\<lparr>f := \<lparr>fbytes = bs, fpos = 44\<rparr>, dpos := 44, freq := rate, bits := bts,
      channels := ch,
      samples := (let n1 = (if ch = 2 then c_div (cnt + 1) 2 else cnt)
                  in if bts = 16 then c_div n1 2 else n1)\<rparr>))"
proof -
  let ?F = "\<lambda>p. \<lparr>fbytes = bs, fpos = p\<rparr>"
  let ?s0 = "w0\<lparr>freq := 22050, bits := 8, channels := 1, f := ?F 12\<rparr>"
  let ?s1 = "?s0\<lparr>f := ?F 36, freq := rate, bits := bts, channels := ch\<rparr>"
  let ?s2 = "?s1\<lparr>f := ?F 40\<rparr>"
  have l12: "length (RIFF_tag @ sz @ WAVE_tag) = 12" using assms(2) by simp
  have b0: "fbytes (f ?s0) = (RIFF_tag @ sz @ WAVE_tag) @ fmt_bytes 16 1 ch rate six bts
              @ (data_tag @ le32 cnt @ dat)"
    using assms(1) by simp
  have c0: "wav_chunk ?s0 = Chunk_next ?s1"
    using wav_chunk_fmt_at [OF b0 _ assms(3)] l12 assms(4,5) by auto
  have b1: "fbytes (f ?s1) = (RIFF_tag @ sz @ WAVE_tag @ fmt_bytes 16 1 ch rate six bts)
              @ data_tag @ (le32 cnt @ dat)"
    using assms(1) by simp
  have c1: "wav_chunk ?s1 = Chunk_data ?s2"
    using wav_chunk_found [OF b1] assms(2,3) by simp
  have ch: "wav_chunks ?s0 = Some (Some ?s2)"
    using c0 c1 by (simp add: wav_chunks_step)
  have b2: "fbytes (f ?s2) = (RIFF_tag @ sz @ WAVE_tag @ fmt_bytes 16 1 ch rate six bts
              @ data_tag) @ le32 cnt @ dat"
    using assms(1) by simp
  have r: "read32 (f ?s2) (samples ?s2) = (True, cnt, ?F 44)"
    using read32_at [OF b2, of "samples ?s2"] assms(2,3) by simp
  have "fbytes (?F 0) = RIFF_tag @ sz @ WAVE_tag
          @ (fmt_bytes 16 1 ch rate six bts @ data_tag @ le32 cnt @ dat)"
    using assms(1) by simp
  from riff_prefix [OF this _ assms(2), of w0] ch
  have "wav_open (Some (?F 0)) (Some w0) = Some (Some (wav_count ?s2))" by simp
  then show ?thesis
    using r by (simp add: wav_count_def Let_def al_ftell_def)
qed

lemma al_fwrite_end:
  assumes "fpos fl = length (fbytes fl)"
  shows "al_fwrite fl xs = \<lparr>fbytes = fbytes fl @ xs, fpos = length (fbytes fl) + length xs\<rparr>"
  using assms by (simp add: al_fwrite_def Let_def)

lemma al_save_wav_stream_int16:
  assumes "depth spl = ALLEGRO_AUDIO_DEPTH_INT16"
    and "wav_channels spl = 1 \<or> wav_channels spl = 2"
    and "length (buffer spl) = 2 * (drop_bit s (len spl) * wav_channels spl)"
    and "length (buffer spl) < 2 ^ 64"
  shows "al_save_wav_stream s cv \<lparr>fbytes = [], fpos = 0\<rparr> spl =
    (True, \<lparr>fbytes = wav_header (wav_channels spl) 16 (frequency spl)
                        ((drop_bit s (len spl) * wav_channels spl * 16) mod 2 ^ 64 div 8)
                      @ buffer spl,
            fpos = 44 + length (buffer spl)\<rparr>)"
proof -
  let ?n = "drop_bit s (len spl) * wav_channels spl"
  let ?hd = "wav_header (wav_channels spl) 16 (frequency spl) ((?n * 16) mod 2 ^ 64 div 8)"
  have b: "wav_bits spl = 16" using assms(1) by (simp add: wav_bits_def)
  have "?n * 2 < 2 ^ 64" using assms(3,4) by simp
  then have "(?n * 2) mod 2 ^ 64 = ?n * 2" by simp
  then have d: "(?n * 2) mod 2 ^ 64 = length (buffer spl)"
    using assms(3) by simp
  have c: "\<not> wav_channels spl < 1" "\<not> 2 < wav_channels spl"
    using assms(2) by auto
  have "al_fwrite (al_fwrite \<lparr>fbytes = [], fpos = 0\<rparr> ?hd) (buffer spl)
          = \<lparr>fbytes = ?hd @ buffer spl, fpos = 44 + length (buffer spl)\<rparr>"
    by (simp add: al_fwrite_end)
  moreover have "al_save_wav_stream s cv \<lparr>fbytes = [], fpos = 0\<rparr> spl
    = (True, al_fwrite (al_fwrite \<lparr>fbytes = [], fpos = 0\<rparr> ?hd) (buffer spl))"
    using assms(1) b c d
    by (simp only: al_save_wav_stream_def Let_def wav_header_written) simp
  ultimately show ?thesis by simp
qed

lemma sdiv2_nonneg: "0 \<le> a \<Longrightarrow> a sdiv 2 = a div 2" for a :: int
  by (simp add: signed_divide_int_def sgn_if)

lemma frames_of_size:
  assumes "ch = 1 \<or> ch = (2 :: nat)" and "m = 2 * (n * ch)" and "m < 2 ^ 31"
  shows "sint (let cnt = word_of_nat m :: 32 word;
                   n1 = (if (word_of_nat ch :: 16 word) = 2 then c_div (cnt + 1) 2 else cnt)
               in c_div n1 2) = int n"
proof -
  let ?cnt = "word_of_nat m :: 32 word"
  have sc: "sint ?cnt = int m"
    using assms(3) by (rule sint_word_of_nat32)
  from assms(1) show ?thesis
  proof
    assume c: "ch = 1"
    then have "int m = 2 * int n" using assms(2) by simp
    then have "sint (c_div ?cnt 2) = int n"
      using sc by (simp add: sint_c_div2 sdiv2_nonneg)
    with c show ?thesis by (simp add: Let_def)
  next
    assume c: "ch = 2"
    then have m: "int m = 4 * int n" using assms(2) by simp
    have "4 * int n \<noteq> 2147483647" by presburger
    then have "4 * int n \<noteq> 2 ^ 31 - 1" by simp
    then have "sint ?cnt \<noteq> 2 ^ 31 - 1" using sc m by simp
    then have "sint (?cnt + 1) = 4 * int n + 1"
      using sc m by (simp add: sint_succ)
    then have "sint (c_div (?cnt + 1) 2) = 2 * int n"
      by (simp add: sint_c_div2 sdiv2_nonneg)
    then have "sint (c_div (c_div (?cnt + 1) 2) 2) = int n"
      by (simp add: sint_c_div2 sdiv2_nonneg)
    with c show ?thesis by (simp add: Let_def)
  qed
qed

lemma wav_read_all_16:
  assumes "bits h = 16" and "channels h = 1 \<or> channels h = 2"
    and "fbytes (f h) = pre @ buf" and "fpos (f h) = length pre"
    and "length buf = 2 * (k * unat (channels h))"
    and "k \<le> n" and "unat (channels h) * n < 2 ^ 64"
  shows "fst (wav_read h d n) = k"
    and "fst (snd (wav_read h d n)) = buf @ drop (length buf) d"
proof -
  let ?c = "unat (channels h)"
  have b: "bits h \<noteq> 8" using assms(1) by simp
  have c: "size_t_of (sint (channels h)) = ?c" "0 < ?c"
    using size_t_channels [OF assms(2)] by simp_all
  have nw: "(?c * n) mod 2 ^ 64 = ?c * n" using assms(7) by simp
  have "k * ?c \<le> n * ?c" using assms(6) by (rule mult_le_mono1)
  then have le: "length buf \<le> 2 * (?c * n)"
    using assms(5) by (simp add: mult.commute)
  have rest: "drop (fpos (f h)) (fbytes (f h)) = buf" using assms(3,4) by simp
  have tk: "take (2 * (?c * n)) buf = buf" using le by simp
  have ev: "length buf div 2 = k * ?c" using assms(5) by simp
  have lv: "length (view16 buf) div ?c = k"
    using c(2) by (simp add: length_view16 ev)
  have mv: "mem16 (view16 buf) = buf"
    using assms(5) by (simp add: mem16_view16 ev)
  show "fst (wav_read h d n) = k"
    using nw c(1) rest tk lv by (simp add: wav_read_16 [OF b] Let_def)
  show "fst (snd (wav_read h d n)) = buf @ drop (length buf) d"
    using nw c(1) rest tk mv by (simp add: wav_read_16 [OF b] Let_def store_def)
qed

text \<open>
  C1, amended. For every signed 16-bit sample with one or two channels whose buffer holds
  its frames: \<open>al_save_wav_stream\<close> on an empty stream succeeds; \<open>wav_open\<close> on what it
  wrote returns a handle with the sample's channel count, and with the sample's rate
  exactly when the rate is below \<open>2 ^ 31\<close>, the handle holding it in an \<open>int\<close>; and
  \<open>wav_read\<close>, asked for the sample's frames or more into a block with room for them,
  returns the number of the sample's frames and fills the block with the bytes of the
  sample's buffer, so the 16-bit values are the same. The length of the data is not
  bounded, except that the buffer and the request are in memory: the buffer has fewer
  than \<open>2 ^ 64\<close> bytes, and the number of values asked for does not wrap \<open>size_t\<close>. The
  frame count of the handle is the sample's exactly when the data is shorter than
  \<open>2 ^ 31\<close> bytes. The host is little-endian, as everywhere in this embedding.
\<close>

theorem wav_round_trip_int16:
  assumes "depth spl = ALLEGRO_AUDIO_DEPTH_INT16"
    and "wav_channels spl = 1 \<or> wav_channels spl = 2"
    and "length (buffer spl) = 2 * (drop_bit s (len spl) * wav_channels spl)"
    and "length (buffer spl) < 2 ^ 64"
    and "drop_bit s (len spl) \<le> n" and "wav_channels spl * n < 2 ^ 64"
    and "length (buffer spl) \<le> length d"
  shows "\<exists>pf h. al_save_wav_stream s cv \<lparr>fbytes = [], fpos = 0\<rparr> spl = (True, pf)
          \<and> wav_open (Some (pf\<lparr>fpos := 0\<rparr>)) (Some w0) = Some (Some h)
          \<and> (sint (freq h) = int (frequency spl) \<longleftrightarrow> frequency spl < 2 ^ 31)
          \<and> sint (channels h) = int (wav_channels spl)
          \<and> fst (wav_read h d n) = drop_bit s (len spl)
          \<and> fst (snd (wav_read h d n)) = buffer spl @ drop (length (buffer spl)) d
          \<and> view16 (take (length (buffer spl)) (fst (snd (wav_read h d n))))
              = view16 (buffer spl)
          \<and> (sint (samples h) = int (drop_bit s (len spl))
               \<longleftrightarrow> length (buffer spl) < 2 ^ 31)"
proof -
  let ?ch = "wav_channels spl"
  let ?F = "drop_bit s (len spl)"
  let ?L = "length (buffer spl)"
  let ?ds = "(?F * ?ch * 16) mod 2 ^ 64 div 8"
  let ?hd = "wav_header ?ch 16 (frequency spl) ?ds"
  let ?bs = "?hd @ buffer spl"
  let ?pf = "\<lparr>fbytes = ?bs, fpos = 44 + ?L\<rparr>"
  let ?cnt = "word_of_nat ?ds :: 32 word"
  let ?chw = "word_of_nat ?ch :: 16 word"
  let ?smp = "(let n1 = (if ?chw = 2 then c_div (?cnt + 1) 2 else ?cnt)
               in if (16 :: 16 word) = 16 then c_div n1 2 else n1)"
  let ?h = "w0\<lparr>f := \<lparr>fbytes = ?bs, fpos = 44\<rparr>, dpos := 44,
               freq := word_of_nat (frequency spl), bits := 16, channels := ?chw,
               samples := ?smp\<rparr>"
  have sv: "al_save_wav_stream s cv \<lparr>fbytes = [], fpos = 0\<rparr> spl = (True, ?pf)"
    by (rule al_save_wav_stream_int16 [OF assms(1-4)])
  have chw: "?chw = 1 \<or> ?chw = 2" and sch: "sint ?chw = int ?ch" and uch: "unat ?chw = ?ch"
    using assms(2) by auto
  have lay: "?bs = RIFF_tag @ le32 (word_of_nat (36 + ?ds)) @ WAVE_tag
      @ fmt_bytes 16 1 ?chw (word_of_nat (frequency spl))
          (le32 (word_of_nat ((frequency spl * ?ch * 16) mod 2 ^ 64 div 8))
           @ le16 (word_of_nat (?ch * 16 div 8))) 16
      @ data_tag @ le32 ?cnt @ buffer spl"
    by (simp add: wav_header_layout)
  have op: "wav_open (Some (?pf\<lparr>fpos := 0\<rparr>)) (Some w0) = Some (Some ?h)"
    using wav_open_canonical [where ?w0.0 = w0, OF lay _ _ chw] by simp
  have fr: "sint (freq ?h) = int (frequency spl) \<longleftrightarrow> frequency spl < 2 ^ 31"
  proof
    assume "sint (freq ?h) = int (frequency spl)"
    moreover have "sint (word_of_nat (frequency spl) :: 32 word) < 2 ^ 31"
      using sint_lt [of "word_of_nat (frequency spl) :: 32 word"] by simp
    ultimately have "int (frequency spl) < 2 ^ 31" by simp
    then show "frequency spl < 2 ^ 31" by simp
  next
    assume "frequency spl < 2 ^ 31"
    from sint_word_of_nat32 [OF this] show "sint (freq ?h) = int (frequency spl)" by simp
  qed
  have hb: "bits ?h = 16" and hc: "channels ?h = 1 \<or> channels ?h = 2"
    and hf: "fbytes (f ?h) = ?hd @ buffer spl" and hp: "fpos (f ?h) = length ?hd"
    using chw by simp_all
  have hl: "length (buffer spl) = 2 * (?F * unat (channels ?h))"
    using assms(3) uch by simp
  have hn: "unat (channels ?h) * n < 2 ^ 64"
    using assms(6) uch by simp
  note rd = wav_read_all_16 [OF hb hc hf hp hl assms(5) hn, of d]
  have vw: "view16 (take ?L (fst (snd (wav_read ?h d n)))) = view16 (buffer spl)"
    by (simp only: rd(2)) simp
  have sm: "sint (samples ?h) = int ?F \<longleftrightarrow> ?L < 2 ^ 31"
  proof
    assume small: "?L < 2 ^ 31"
    have "?F * ?ch * 16 = 8 * ?L" using assms(3) by simp
    moreover have "8 * ?L < 2 ^ 64" using small by simp
    ultimately have "?ds = ?L" by simp
    with frames_of_size [OF assms(2,3) small] show "sint (samples ?h) = int ?F"
      by (cases "?chw = 2") (simp_all add: Let_def)
  next
    assume eq: "sint (samples ?h) = int ?F"
    show "?L < 2 ^ 31"
    proof (rule ccontr)
      assume "\<not> ?L < 2 ^ 31"
      then have big: "2 ^ 31 \<le> ?L" by simp
      from assms(2) show False
      proof
        assume c: "?ch = 1"
        then have "samples ?h = c_div ?cnt 2" by (simp add: Let_def)
        then have "sint (samples ?h) < 2 ^ 30"
          using c_div2_bounds(2) [of ?cnt] by simp
        moreover have "2 ^ 30 \<le> ?F" using big assms(3) c by simp
        then have "2 ^ 30 \<le> int ?F" by simp
        ultimately show False using eq by simp
      next
        assume c: "?ch = 2"
        then have "samples ?h = c_div (c_div (?cnt + 1) 2) 2" by (simp add: Let_def)
        then have "sint (samples ?h) < 2 ^ 29"
          using c_div2_bounds(4) [of "?cnt + 1"] by simp
        moreover have "2 ^ 29 \<le> ?F" using big assms(3) c by simp
        then have "2 ^ 29 \<le> int ?F" by simp
        ultimately show False using eq by simp
      qed
    qed
  qed
  have hch: "sint (channels ?h) = int ?ch"
    using sch by simp
  from sv op fr hch rd vw sm show ?thesis
    by (intro exI [of _ ?pf] exI [of _ ?h]) (simp only: simp_thms)
qed

theorem wav_round_trip_int16_witness:
  "\<exists>pf h. al_save_wav_stream 8 no_conv \<lparr>fbytes = [], fpos = 0\<rparr> one_frame = (True, pf)
      \<and> wav_open (Some (pf\<lparr>fpos := 0\<rparr>)) (Some fresh_block) = Some (Some h)
      \<and> sint (freq h) = 44100 \<and> sint (channels h) = 2 \<and> sint (samples h) = 1
      \<and> fst (wav_read h [0, 0, 0, 0] (size_t_of (sint (samples h)))) = 1
      \<and> fst (snd (wav_read h [0, 0, 0, 0] (size_t_of (sint (samples h))))) = [1, 0, 0xFF, 0xFF]
      \<and> view16 (fst (snd (wav_read h [0, 0, 0, 0] (size_t_of (sint (samples h))))))
          = [1, 0xFFFF]"
proof -
  have c: "wav_channels one_frame = 2"
    by (simp add: wav_channels_def one_frame_def)
  have f: "drop_bit 8 (len one_frame) = 1"
    by (simp add: one_frame_def drop_bit_eq_div)
  have v: "view16 [1, 0, 0xFF, 0xFF] = [1, 0xFFFF]"
    by simp
  have "depth one_frame = ALLEGRO_AUDIO_DEPTH_INT16"
    and "wav_channels one_frame = 1 \<or> wav_channels one_frame = 2"
    and "length (buffer one_frame) = 2 * (drop_bit 8 (len one_frame) * wav_channels one_frame)"
    and "length (buffer one_frame) < 2 ^ 64"
    and "drop_bit 8 (len one_frame) \<le> 1" and "wav_channels one_frame * 1 < 2 ^ 64"
    and "length (buffer one_frame) \<le> length [0, 0, 0, 0 :: byte]"
    using c f by (simp_all add: one_frame_def)
  from wav_round_trip_int16 [OF this, of no_conv fresh_block]
  obtain pf h where
    "al_save_wav_stream 8 no_conv \<lparr>fbytes = [], fpos = 0\<rparr> one_frame = (True, pf)"
    "wav_open (Some (pf\<lparr>fpos := 0\<rparr>)) (Some fresh_block) = Some (Some h)"
    "sint (freq h) = int (frequency one_frame) \<longleftrightarrow> frequency one_frame < 2 ^ 31"
    "sint (channels h) = int (wav_channels one_frame)"
    "fst (wav_read h [0, 0, 0, 0] 1) = drop_bit 8 (len one_frame)"
    "fst (snd (wav_read h [0, 0, 0, 0] 1))
       = buffer one_frame @ drop (length (buffer one_frame)) [0, 0, 0, 0]"
    "sint (samples h) = int (drop_bit 8 (len one_frame))
       \<longleftrightarrow> length (buffer one_frame) < 2 ^ 31"
    by blast
  then show ?thesis
    using c f v
    by (intro exI [of _ pf] exI [of _ h]) (simp add: one_frame_def size_t_of_def)
qed

text \<open>
  Without the bound on the rate the round trip fails: the rate \<open>2 ^ 31\<close> is written as
  the bytes 00 00 00 80 and read back into the handle's \<open>int\<close> as \<open>- 2 ^ 31\<close>.
\<close>

theorem wav_round_trip_rate_counterexample:
  "al_save_wav_stream 8 no_conv \<lparr>fbytes = [], fpos = 0\<rparr> fast_rate
     = (True, \<lparr>fbytes = wav_header 1 16 2147483648 0, fpos = 44\<rparr>)
   \<and> wav_open (Some \<lparr>fbytes = wav_header 1 16 2147483648 0, fpos = 0\<rparr>) (Some fresh_block)
     = Some (Some (fresh_block\<lparr>f := \<lparr>fbytes = wav_header 1 16 2147483648 0, fpos = 44\<rparr>,
          dpos := 44, freq := 0x80000000, bits := 16, channels := 1, samples := 0\<rparr>))
   \<and> sint (freq (fresh_block\<lparr>f := \<lparr>fbytes = wav_header 1 16 2147483648 0, fpos = 44\<rparr>,
          dpos := 44, freq := 0x80000000, bits := 16, channels := 1, samples := 0\<rparr>))
       = - 2147483648
   \<and> int (frequency fast_rate) = 2147483648"
proof -
  have c: "wav_channels fast_rate = 1"
    by (simp add: wav_channels_def fast_rate_def)
  have "al_save_wav_stream 8 no_conv \<lparr>fbytes = [], fpos = 0\<rparr> fast_rate
     = (True, \<lparr>fbytes = wav_header (wav_channels fast_rate) 16 (frequency fast_rate)
          ((drop_bit 8 (len fast_rate) * wav_channels fast_rate * 16) mod 2 ^ 64 div 8)
          @ buffer fast_rate,
        fpos = 44 + length (buffer fast_rate)\<rparr>)"
    using c by (intro al_save_wav_stream_int16) (simp_all add: fast_rate_def)
  then have sv: "al_save_wav_stream 8 no_conv \<lparr>fbytes = [], fpos = 0\<rparr> fast_rate
     = (True, \<lparr>fbytes = wav_header 1 16 2147483648 0, fpos = 44\<rparr>)"
    using c by (simp add: fast_rate_def)
  have lay: "wav_header 1 16 2147483648 0 = RIFF_tag @ le32 36 @ WAVE_tag
      @ fmt_bytes 16 1 1 0x80000000 (le32 4294967296 @ le16 2) 16
      @ data_tag @ le32 0 @ []"
    by (simp add: wav_header_layout)
  have op: "wav_open (Some \<lparr>fbytes = wav_header 1 16 2147483648 0, fpos = 0\<rparr>) (Some fresh_block)
     = Some (Some (fresh_block\<lparr>f := \<lparr>fbytes = wav_header 1 16 2147483648 0, fpos = 44\<rparr>,
          dpos := 44, freq := 0x80000000, bits := 16, channels := 1, samples := 0\<rparr>))"
    using wav_open_canonical [where ?w0.0 = fresh_block, OF lay]
    by (simp add: c_div_def signed_divide_int_def)
  show ?thesis
    using sv op by (simp add: fast_rate_def)
qed

end
